theory Spec2Isabelle
  imports Main "HOL-Library.AList"
begin

section \<open>The UI state types (types/ui-state.ts)\<close>

text \<open>
  The TypeScript interfaces become records; an optional field \<open>f?: T\<close> becomes a field of
  type \<open>T option\<close>, where \<open>None\<close> stands for an absent or \<open>undefined\<close> property. String
  unions become datatypes. Field names carry a one-letter prefix because the interfaces
  share names (\<open>visible\<close>, \<open>label\<close>, \<open>action\<close>, ...).
\<close>

datatype UploadStatus = Idle | Uploading | Completed | Error

datatype ButtonStyle = Primary | Secondary | Danger

record MediaUploadState =
  m_visible :: bool
  m_status :: UploadStatus
  m_acceptedTypes :: "string list option"
  m_multiple :: "bool option"
  m_label :: "string option"

text \<open>
  A button object as it exists at run time. The interface declares \<open>visible\<close> and
  \<open>enabled\<close> as required, but \<open>hide-button\<close> and \<open>update-button\<close> build objects by
  spreading whatever \<open>buttons[id]\<close> yields, which can be a value without them, so every
  property is optional here. Spreading a string yields one property per character, named
  by its position: \<open>b_chars\<close> is the string of these (\<open>''\<close> when there are none).
\<close>

record ButtonState =
  b_visible :: "bool option"
  b_enabled :: "bool option"
  b_label :: "string option"
  b_action :: "string option"
  b_style :: "ButtonStyle option"
  b_chars :: string

record ContentState =
  c_text :: "string option"
  c_visible :: bool

text \<open>
  \<open>Record<string, ButtonState>\<close>: the own properties of the object, in the order in which
  JavaScript lists them.
\<close>

type_synonym Buttons = "(string \<times> ButtonState) list"

text \<open>
  A \<open>UIState\<close> object holds its \<open>buttons\<close> object by reference. The content and
  media-upload objects and the button entries are only ever replaced, never written to,
  so they are kept by value; the buttons object is written to in place
  (\<open>newState.buttons[id] = ...\<close>), so it lives in a store and the state holds its address.
  The type parameter is the representation of \<open>buttons\<close>: an address for an object in
  the store, the mapping itself for a structural value (what JSON carries).

  The store holds, for each buttons object, its own properties (\<open>cells\<close>) and its
  prototype (\<open>protos\<close>): \<open>None\<close> is \<open>Object.prototype\<close>, which every object literal
  starts with; an assignment to \<open>buttons['__proto__']\<close> replaces it by the assigned button
  object.
\<close>

type_synonym addr = nat

record 'b UIState_of =
  content :: ContentState
  mediaUpload :: MediaUploadState
  buttons :: 'b

type_synonym UIState = "Buttons UIState_of"

type_synonym UIStateObj = "addr UIState_of"

record Heap =
  cells :: "addr \<Rightarrow> Buttons"
  protos :: "addr \<Rightarrow> ButtonState option"
  nxt :: addr

definition alloc :: "Buttons \<Rightarrow> Heap \<Rightarrow> addr \<times> Heap" where
  "alloc bs h =
     (nxt h, h\<lparr>cells := (cells h)(nxt h := bs), protos := (protos h)(nxt h := None),
               nxt := Suc (nxt h)\<rparr>)"

text \<open>Reading a state object: what its holder sees in the store \<open>h\<close>.\<close>

definition deref :: "Heap \<Rightarrow> UIStateObj \<Rightarrow> UIState" where
  "deref h s = \<lparr>content = content s, mediaUpload = mediaUpload s, buttons = cells h (buttons s)\<rparr>"

text \<open>Building a state object: its buttons object is new in the store.\<close>

definition new_state :: "UIState \<Rightarrow> Heap \<Rightarrow> UIStateObj \<times> Heap" where
  "new_state s h =
     (let (a, h') = alloc (buttons s) h
      in (\<lparr>content = content s, mediaUpload = mediaUpload s, buttons = a\<rparr>, h'))"

datatype Action =
    ShowContent | UpdateContent | HideContent
  | ShowUpload | HideUpload | CancelUpload
  | ShowButton | HideButton | UpdateButton
  | OtherAction string

record Props =
  p_text :: "string option"
  p_visible :: "bool option"
  p_accept :: "string option"
  p_multiple :: "bool option"
  p_uploadLabel :: "string option"
  p_buttonId :: "string option"
  p_buttonLabel :: "string option"
  p_enabled :: "bool option"
  p_action :: "string option"
  p_style :: "ButtonStyle option"

record UIDirective =
  action :: Action
  component :: "string option"
  props :: "Props option"

section \<open>The UI manager (services/UIManager.ts)\<close>

text \<open>JavaScript truthiness of an optional string: \<open>undefined\<close> and \<open>''\<close> are falsy.\<close>

fun truthy :: "string option \<Rightarrow> bool" where
  "truthy None = False"
| "truthy (Some s) = (s \<noteq> [])"

text \<open>\<open>directive.props?.f\<close>\<close>

definition props_get :: "(Props \<Rightarrow> 'a option) \<Rightarrow> UIDirective \<Rightarrow> 'a option" where
  "props_get f d = (case props d of None \<Rightarrow> None | Some p \<Rightarrow> f p)"

text \<open>\<open>x ?? y\<close>\<close>

definition nullish :: "'a option \<Rightarrow> 'a \<Rightarrow> 'a" where
  "nullish x y = (case x of None \<Rightarrow> y | Some v \<Rightarrow> v)"

text \<open>\<open>getInitialState\<close> returns a new object each time; \<open>initialState\<close> is its value.\<close>

definition initialState :: UIState where
  "initialState =
     \<lparr>content = \<lparr>c_text = Some [], c_visible = False\<rparr>,
      mediaUpload = \<lparr>m_visible = False, m_status = Idle,
                      m_acceptedTypes = Some [''image/*''],
                      m_multiple = Some False, m_label = None\<rparr>,
      buttons = []\<rparr>"

definition getInitialState :: "Heap \<Rightarrow> UIStateObj \<times> Heap" where
  "getInitialState h = new_state initialState h"

subsection \<open>Property access on the buttons object\<close>

text \<open>A canonical array index: decimal digits without a leading zero, below \<open>2^32 - 1\<close>.\<close>

definition digit_val :: "char \<Rightarrow> int" where
  "digit_val c = of_char c - 48"

definition index_of :: "string \<Rightarrow> nat option" where
  "index_of s =
     (let n = foldl (\<lambda>a c. 10 * a + digit_val c) 0 s
      in if s \<noteq> [] \<and> list_all (\<lambda>c. c \<in> set ''0123456789'') s
            \<and> (s = ''0'' \<or> hd s \<noteq> CHR ''0'') \<and> n < 2 ^ 32 - 1
         then Some (nat n) else None)"

text \<open>
  The own properties of an ordinary object are listed with the array indices first, in
  ascending order, and then the other keys in the order of their creation. \<open>put_prop\<close>
  is the assignment \<open>obj[k] = v\<close> on the own properties: an existing key keeps its
  place, a new one is put where that order has it.
\<close>

fun insert_index :: "nat \<Rightarrow> string \<Rightarrow> 'a \<Rightarrow> (string \<times> 'a) list \<Rightarrow> (string \<times> 'a) list" where
  "insert_index i k v [] = [(k, v)]"
| "insert_index i k v ((k', v') # kvs) =
     (case index_of k' of
        Some j \<Rightarrow> if j < i then (k', v') # insert_index i k v kvs else (k, v) # (k', v') # kvs
      | None \<Rightarrow> (k, v) # (k', v') # kvs)"

definition put_prop :: "string \<Rightarrow> 'a \<Rightarrow> (string \<times> 'a) list \<Rightarrow> (string \<times> 'a) list" where
  "put_prop k v kvs =
     (if k \<in> set (map fst kvs) then AList.update k v kvs
      else (case index_of k of
              Some i \<Rightarrow> insert_index i k v kvs
            | None \<Rightarrow> kvs @ [(k, v)]))"

text \<open>
  The names that every object finds on \<open>Object.prototype\<close>. Each of them reads as a
  function, except \<open>__proto__\<close>, which reads as the prototype of the object; all of these
  values are truthy and have no enumerable property of their own.
\<close>

definition protoNames :: "string list" where
  "protoNames =
     [''constructor'', ''hasOwnProperty'', ''isPrototypeOf'', ''propertyIsEnumerable'',
      ''toLocaleString'', ''toString'', ''valueOf'', ''__proto__'',
      ''__defineGetter__'', ''__defineSetter__'', ''__lookupGetter__'', ''__lookupSetter__'']"

text \<open>The object without properties: what spreading a function or a boolean yields.\<close>

definition bare :: ButtonState where
  "bare = \<lparr>b_visible = None, b_enabled = None, b_label = None, b_action = None,
            b_style = None, b_chars = []\<rparr>"

fun style_string :: "ButtonStyle \<Rightarrow> string" where
  "style_string Primary = ''primary''"
| "style_string Secondary = ''secondary''"
| "style_string Danger = ''danger''"

text \<open>
  What a test \<open>x &&\<close> followed by a spread \<open>{...x}\<close> sees of a value \<open>x\<close>: \<open>None\<close> when
  \<open>x\<close> is falsy, and otherwise the properties that the spread copies.
\<close>

definition of_bool_value :: "bool \<Rightarrow> ButtonState option" where
  "of_bool_value b = (if b then Some bare else None)"

definition of_string_value :: "string \<Rightarrow> ButtonState option" where
  "of_string_value s = (if s \<noteq> [] then Some (bare\<lparr>b_chars := s\<rparr>) else None)"

text \<open>
  An own property \<open>k\<close> of a button object that serves as a prototype: the outer \<open>None\<close>
  is "no such property", so that the lookup goes on to \<open>Object.prototype\<close>.
\<close>

definition proto_prop :: "ButtonState \<Rightarrow> string \<Rightarrow> ButtonState option option" where
  "proto_prop pb k =
     (if k = ''visible'' then map_option of_bool_value (b_visible pb)
      else if k = ''enabled'' then map_option of_bool_value (b_enabled pb)
      else if k = ''label'' then map_option of_string_value (b_label pb)
      else if k = ''action'' then map_option of_string_value (b_action pb)
      else if k = ''style'' then map_option (\<lambda>st. of_string_value (style_string st)) (b_style pb)
      else (case index_of k of
              Some i \<Rightarrow> if i < length (b_chars pb) then Some (of_string_value [b_chars pb ! i])
                        else None
            | None \<Rightarrow> None))"

definition inherited :: "string \<Rightarrow> ButtonState option" where
  "inherited k = (if k \<in> set protoNames then Some bare else None)"

text \<open>
  \<open>newState.buttons[id]\<close>, as the guard and the spread of \<open>hide-button\<close> and
  \<open>update-button\<close> use it: an own property of the buttons object, else what the
  prototype chain has under that name.
\<close>

definition get_button :: "Heap \<Rightarrow> UIStateObj \<Rightarrow> string \<Rightarrow> ButtonState option" where
  "get_button h s k =
     (case map_of (cells h (buttons s)) k of
        Some b \<Rightarrow> Some b
      | None \<Rightarrow>
          (case protos h (buttons s) of
             None \<Rightarrow> inherited k
           | Some pb \<Rightarrow>
               if k = ''__proto__'' then Some pb
               else (case proto_prop pb k of Some r \<Rightarrow> r | None \<Rightarrow> inherited k)))"

text \<open>
  \<open>newState.buttons[id] = b\<close>: a write to the buttons object the state refers to. The
  name \<open>__proto__\<close>, unless it is an own property, reaches the setter of
  \<open>Object.prototype\<close>, which makes \<open>b\<close> the prototype of the buttons object.
\<close>

definition set_button :: "UIStateObj \<Rightarrow> string \<Rightarrow> ButtonState \<Rightarrow> Heap \<Rightarrow> Heap" where
  "set_button s k b h =
     (if k = ''__proto__'' \<and> k \<notin> set (map fst (cells h (buttons s)))
      then h\<lparr>protos := (protos h)(buttons s := Some b)\<rparr>
      else h\<lparr>cells := (cells h)(buttons s := put_prop k b (cells h (buttons s)))\<rparr>)"

subsection \<open>Directives\<close>

text \<open>
  \<open>applyUIDirective\<close>. \<open>const newState = {...state}\<close> copies the three top-level
  references: the new state is the old record with fields replaced, and its \<open>buttons\<close>
  is the same address as before.
\<close>

definition applyUIDirective :: "Heap \<Rightarrow> UIStateObj \<Rightarrow> UIDirective \<Rightarrow> Heap \<times> UIStateObj" where
  "applyUIDirective h s d =
    (case action d of
       ShowContent \<Rightarrow>
         (h, s\<lparr>content :=
               \<lparr>c_text = Some (if truthy (props_get p_text d) then the (props_get p_text d) else []),
                c_visible = True\<rparr>\<rparr>)
     | UpdateContent \<Rightarrow>
         (h, s\<lparr>content :=
               \<lparr>c_text = (case props_get p_text d of Some t \<Rightarrow> Some t | None \<Rightarrow> c_text (content s)),
                c_visible = nullish (props_get p_visible d) (c_visible (content s))\<rparr>\<rparr>)
     | HideContent \<Rightarrow>
         (h, s\<lparr>content := (content s)\<lparr>c_visible := False\<rparr>\<rparr>)
     | ShowUpload \<Rightarrow>
         (h, s\<lparr>mediaUpload :=
               \<lparr>m_visible = True, m_status = Idle,
                m_acceptedTypes =
                  Some (if truthy (props_get p_accept d) then [the (props_get p_accept d)]
                        else [''image/*'']),
                m_multiple = Some (nullish (props_get p_multiple d) False),
                m_label = props_get p_uploadLabel d\<rparr>\<rparr>)
     | HideUpload \<Rightarrow>
         (h, s\<lparr>mediaUpload := (mediaUpload s)\<lparr>m_visible := False, m_status := Idle\<rparr>\<rparr>)
     | CancelUpload \<Rightarrow>
         (h, s\<lparr>mediaUpload := (mediaUpload s)\<lparr>m_visible := False, m_status := Idle\<rparr>\<rparr>)
     | ShowButton \<Rightarrow>
         (case props d of
            None \<Rightarrow> (h, s)
          | Some p \<Rightarrow>
              if truthy (p_buttonId p)
              then (set_button s (the (p_buttonId p))
                      \<lparr>b_visible = Some True,
                       b_enabled = Some (nullish (p_enabled p) True),
                       b_label = p_buttonLabel p,
                       b_action = p_action p,
                       b_style = Some (nullish (p_style p) Primary),
                       b_chars = []\<rparr> h, s)
              else (h, s))
     | HideButton \<Rightarrow>
         (case props d of
            None \<Rightarrow> (h, s)
          | Some p \<Rightarrow>
              if truthy (p_buttonId p)
              then (case get_button h s (the (p_buttonId p)) of
                      None \<Rightarrow> (h, s)
                    | Some b \<Rightarrow>
                        (set_button s (the (p_buttonId p)) (b\<lparr>b_visible := Some False\<rparr>) h, s))
              else (h, s))
     | UpdateButton \<Rightarrow>
         (case props d of
            None \<Rightarrow> (h, s)
          | Some p \<Rightarrow>
              if truthy (p_buttonId p)
              then (case get_button h s (the (p_buttonId p)) of
                      None \<Rightarrow> (h, s)
                    | Some b \<Rightarrow>
                        (set_button s (the (p_buttonId p))
                           \<lparr>b_visible = b_visible b,
                            b_enabled = (case p_enabled p of Some e \<Rightarrow> Some e | None \<Rightarrow> b_enabled b),
                            b_label = (if truthy (p_buttonLabel p) then p_buttonLabel p else b_label b),
                            b_action = (if truthy (p_action p) then p_action p else b_action b),
                            b_style = (case p_style p of Some st \<Rightarrow> Some st | None \<Rightarrow> b_style b),
                            b_chars = b_chars b\<rparr> h, s))
              else (h, s))
     | OtherAction _ \<Rightarrow> (h, s))"

text \<open>The actions whose branch of \<open>applyUIDirective\<close> assigns to \<open>newState.buttons[...]\<close>.\<close>

definition writes_buttons :: "Action \<Rightarrow> bool" where
  "writes_buttons a = (a = ShowButton \<or> a = HideButton \<or> a = UpdateButton)"

text \<open>
  The manager object together with the part of the runtime it acts on. \<open>state\<close> and
  \<open>listeners\<close> are the fields of the class; a listener is identified by a number and is an
  observer (it does not call back into the manager). \<open>heap\<close> is the object store,
  \<open>notified\<close> the trace of listener calls (listener, state passed), \<open>timers\<close> the number
  of pending \<open>setTimeout\<close> callbacks of \<open>updateMediaUploadStatus\<close>, \<open>warnings\<close> the
  output of \<open>console.warn\<close>.
\<close>

type_synonym Listener = nat

record UIManager =
  state :: UIStateObj
  listeners :: "Listener list"
  heap :: Heap
  notified :: "(Listener \<times> UIStateObj) list"
  timers :: nat
  warnings :: "string list"

definition UIManager_new :: "Heap \<Rightarrow> UIStateObj option \<Rightarrow> UIManager" where
  "UIManager_new h given =
     (case given of
        Some s \<Rightarrow> \<lparr>state = s, listeners = [], heap = h, notified = [], timers = 0, warnings = []\<rparr>
      | None \<Rightarrow>
          (let (s, h') = getInitialState h
           in \<lparr>state = s, listeners = [], heap = h', notified = [], timers = 0, warnings = []\<rparr>))"

text \<open>\<open>Set.add\<close> and \<open>Set.delete\<close> on the listener set (insertion order).\<close>

definition subscribe :: "Listener \<Rightarrow> UIManager \<Rightarrow> UIManager" where
  "subscribe l m =
     m\<lparr>listeners := (if l \<in> set (listeners m) then listeners m else listeners m @ [l])\<rparr>"

definition unsubscribe :: "Listener \<Rightarrow> UIManager \<Rightarrow> UIManager" where
  "unsubscribe l m = m\<lparr>listeners := removeAll l (listeners m)\<rparr>"

definition notifyListeners :: "UIManager \<Rightarrow> UIManager" where
  "notifyListeners m = m\<lparr>notified := notified m @ map (\<lambda>l. (l, state m)) (listeners m)\<rparr>"

definition getState :: "UIManager \<Rightarrow> UIStateObj" where
  "getState m = state m"

text \<open>What a reader of \<open>getState()\<close> sees: the state with its buttons object read from the store.\<close>

definition current :: "UIManager \<Rightarrow> UIState" where
  "current m = deref (heap m) (state m)"

definition applyDirective :: "UIManager \<Rightarrow> UIDirective \<Rightarrow> UIManager" where
  "applyDirective m d =
     (let (h', newState) = applyUIDirective (heap m) (state m) d
      in notifyListeners (m\<lparr>state := newState, heap := h'\<rparr>))"

definition reset :: "UIManager \<Rightarrow> UIManager" where
  "reset m =
     (let (s, h') = getInitialState (heap m)
      in notifyListeners (m\<lparr>state := s, heap := h'\<rparr>))"

text \<open>
  \<open>updateMediaUploadStatus\<close>: the arrow function handed to \<open>setTimeout\<close> is \<open>autoHide\<close>;
  \<open>fireTimer\<close> is the event loop running one pending callback.
\<close>

definition autoHide :: "UIManager \<Rightarrow> UIManager" where
  "autoHide m =
     notifyListeners
       (m\<lparr>state := (state m)\<lparr>mediaUpload :=
                       (mediaUpload (state m))\<lparr>m_visible := False, m_status := Idle\<rparr>\<rparr>\<rparr>)"

definition updateMediaUploadStatus :: "UIManager \<Rightarrow> UploadStatus \<Rightarrow> UIManager" where
  "updateMediaUploadStatus m st =
     (let m1 = notifyListeners
                 (m\<lparr>state := (state m)\<lparr>mediaUpload := (mediaUpload (state m))\<lparr>m_status := st\<rparr>\<rparr>\<rparr>)
      in if st = Completed then m1\<lparr>timers := Suc (timers m1)\<rparr> else m1)"

definition fireTimer :: "UIManager \<Rightarrow> UIManager" where
  "fireTimer m = (if timers m = 0 then m else autoHide (m\<lparr>timers := timers m - 1\<rparr>))"

subsection \<open>Messages\<close>

text \<open>
  JSON values, as \<open>JSON.parse\<close> builds them, with \<open>undefined\<close> added (the value of a
  missing property). Numbers are the integers; an object is its own properties in the
  order in which JavaScript lists them.
\<close>

datatype json =
    JUndefined | JNull | JBool bool | JNum int | JStr string
  | JArr "json list" | JObj "(string \<times> json) list"

datatype PatchOp = Add | Remove | Replace | Move | Copy | Test

record Patch =
  op :: PatchOp
  path :: string
  patch_value :: json

record StateDelta =
  patch :: "Patch list"

text \<open>
  The argument of \<open>processMessage\<close>, by its \<open>type\<close> tag; \<open>OtherMsg\<close> is a message whose
  tag is none of the three. A snapshot message is given by its \<open>state\<close> property, the
  value that \<open>JSON.parse\<close> built (\<open>JUndefined\<close> when the property is missing).
\<close>

datatype Message =
    DirectiveMsg UIDirective
  | SnapshotMsg json
  | DeltaMsg StateDelta
  | OtherMsg string

subsection \<open>Property access on \<open>any\<close>\<close>

text \<open>
  Errors. \<open>TypeError\<close> is the JavaScript exception. \<open>Unmodelled\<close> marks a step that
  reaches a built-in object, which the model does not represent: a property found on a
  prototype (\<open>current['constructor']\<close> is the global \<open>Object\<close>), a named property or the
  length of an array or a string, an assignment that replaces a prototype.
\<close>

datatype js_error = TypeError | Unmodelled

definition and_then :: "'e + 'a \<Rightarrow> ('a \<Rightarrow> 'e + 'b) \<Rightarrow> 'e + 'b" where
  "and_then x f = (case x of Inl e \<Rightarrow> Inl e | Inr v \<Rightarrow> f v)"

fun truthy_json :: "json \<Rightarrow> bool" where
  "truthy_json JUndefined = False"
| "truthy_json JNull = False"
| "truthy_json (JBool b) = b"
| "truthy_json (JNum n) = (n \<noteq> 0)"
| "truthy_json (JStr s) = (s \<noteq> [])"
| "truthy_json (JArr _) = True"
| "truthy_json (JObj _) = True"

text \<open>
  \<open>current[k]\<close>. An own property is read; a name that is not an own property is looked up
  on the prototype chain: for an object, a boolean and a number the names found there
  are known (\<open>protoNames\<close>, \<open>numberNames\<close>) and every other name reads as \<open>undefined\<close>;
  the prototypes of strings and arrays differ between engines, so there every name
  other than an index and \<open>length\<close> is left unmodelled.
\<close>

definition numberNames :: "string list" where
  "numberNames = [''toExponential'', ''toFixed'', ''toPrecision'']"

fun get_prop :: "json \<Rightarrow> string \<Rightarrow> js_error + json" where
  "get_prop JUndefined k = Inl TypeError"
| "get_prop JNull k = Inl TypeError"
| "get_prop (JBool _) k = (if k \<in> set protoNames then Inl Unmodelled else Inr JUndefined)"
| "get_prop (JNum _) k =
     (if k \<in> set protoNames \<or> k \<in> set numberNames then Inl Unmodelled else Inr JUndefined)"
| "get_prop (JStr s) k =
     (if k = ''length'' then Inr (JNum (int (length s)))
      else (case index_of k of
              Some i \<Rightarrow> Inr (if i < length s then JStr [s ! i] else JUndefined)
            | None \<Rightarrow> Inl Unmodelled))"
| "get_prop (JArr xs) k =
     (if k = ''length'' then Inr (JNum (int (length xs)))
      else (case index_of k of
              Some i \<Rightarrow> Inr (if i < length xs then xs ! i else JUndefined)
            | None \<Rightarrow> Inl Unmodelled))"
| "get_prop (JObj kvs) k =
     (case map_of kvs k of
        Some v \<Rightarrow> Inr v
      | None \<Rightarrow> if k \<in> set protoNames then Inl Unmodelled else Inr JUndefined)"

text \<open>
  \<open>current[k] = v\<close>. A class body is strict-mode code, so creating a property on a
  primitive throws. An array is extended with holes, which read as \<open>undefined\<close>. The name
  \<open>__proto__\<close>, unless it is an own property, reaches the setter of \<open>Object.prototype\<close>.
\<close>

fun set_prop :: "json \<Rightarrow> string \<Rightarrow> json \<Rightarrow> js_error + json" where
  "set_prop (JObj kvs) k v =
     (if k = ''__proto__'' \<and> k \<notin> set (map fst kvs) then Inl Unmodelled
      else Inr (JObj (put_prop k v kvs)))"
| "set_prop (JArr xs) k v =
     (case index_of k of
        Some i \<Rightarrow>
          Inr (JArr (if i < length xs then xs[i := v]
                     else xs @ replicate (i - length xs) JUndefined @ [v]))
      | None \<Rightarrow> Inl Unmodelled)"
| "set_prop JUndefined k v = Inl TypeError"
| "set_prop JNull k v = Inl TypeError"
| "set_prop _ k v = (if k = ''__proto__'' then Inl Unmodelled else Inl TypeError)"

text \<open>\<open>delete current[k]\<close>: an array keeps its length, the slot becomes a hole.\<close>

fun delete_prop :: "json \<Rightarrow> string \<Rightarrow> js_error + json" where
  "delete_prop (JObj kvs) k = Inr (JObj (AList.delete k kvs))"
| "delete_prop (JArr xs) k =
     (if k = ''length'' then Inl TypeError
      else (case index_of k of
              Some i \<Rightarrow> Inr (JArr (if i < length xs then xs[i := JUndefined] else xs))
            | None \<Rightarrow> Inr (JArr xs)))"
| "delete_prop (JStr s) k =
     (if k = ''length'' then Inl TypeError
      else (case index_of k of
              Some i \<Rightarrow> if i < length s then Inl TypeError else Inr (JStr s)
            | None \<Rightarrow> Inr (JStr s)))"
| "delete_prop (JBool b) k = Inr (JBool b)"
| "delete_prop (JNum n) k = Inr (JNum n)"
| "delete_prop _ k = Inl TypeError"

text \<open>
  \<open>a !== b\<close> negated. Objects and arrays compare by reference, and a value parsed from a
  message is never the same object as a node of the copied state.
\<close>

fun strict_eq :: "json \<Rightarrow> json \<Rightarrow> bool" where
  "strict_eq JUndefined JUndefined = True"
| "strict_eq JNull JNull = True"
| "strict_eq (JBool a) (JBool b) = (a = b)"
| "strict_eq (JNum a) (JNum b) = (a = b)"
| "strict_eq (JStr a) (JStr b) = (a = b)"
| "strict_eq _ _ = False"

subsection \<open>Deltas: paths\<close>

text \<open>
  \<open>String.prototype.split\<close> with a string separator: the text is cut at each occurrence
  of the separator, scanning from the left; with the empty separator it is cut into its
  characters.
\<close>

function split_from :: "string \<Rightarrow> string \<Rightarrow> string \<Rightarrow> string list" where
  "split_from sep acc s =
     (if s = [] then [rev acc]
      else if sep \<noteq> [] \<and> take (length sep) s = sep
           then rev acc # split_from sep [] (drop (length sep) s)
           else split_from sep (hd s # acc) (tl s))"
  by pat_completeness auto
termination
  by (relation "measure (\<lambda>(sep, acc, s). length s)") auto

declare split_from.simps [simp del]

definition split :: "string \<Rightarrow> string \<Rightarrow> string list" where
  "split sep s = (if sep = [] then map (\<lambda>c. [c]) s else split_from sep [] s)"

text \<open>
  \<open>patch.path.split('/').filter(p => p)\<close>, then the leading \<open>ui\<close> segment is dropped
  (\<open>pathParts.slice(1)\<close>).
\<close>

definition segments :: "string \<Rightarrow> string list" where
  "segments pth = filter (\<lambda>p. p \<noteq> []) (split ''/'' pth)"

definition pathParts :: "string \<Rightarrow> string list" where
  "pathParts pth =
     (let parts = segments pth
      in if length parts > 0 \<and> hd parts = ''ui'' then tl parts else parts)"

text \<open>
  \<open>pathParts[pathParts.length - 1]\<close>: for an empty list this is \<open>undefined\<close>, which as a
  property key is the string \<open>undefined\<close>.
\<close>

definition path_key :: "string list \<Rightarrow> string" where
  "path_key parts = (if parts = [] then ''undefined'' else last parts)"

subsection \<open>Deltas: one patch operation\<close>

text \<open>
  The walk to the parent of the target. The source moves a pointer \<open>current\<close> down the
  copied tree, creating \<open>{}\<close> where a segment is missing or falsy, and then writes
  through the pointer. On a tree value this is: apply \<open>f\<close> at the node the pointer
  reaches and put the changed child back on the way up. A primitive cannot be written
  to, so below a primitive nothing changes and nothing is put back.
\<close>

definition put_back :: "json \<Rightarrow> string \<Rightarrow> json \<Rightarrow> json" where
  "put_back cur k child =
     (case cur of
        JObj kvs \<Rightarrow> JObj (AList.update k child kvs)
      | JArr xs \<Rightarrow>
          (case index_of k of
             Some i \<Rightarrow> if i < length xs then JArr (xs[i := child]) else JArr xs
           | None \<Rightarrow> JArr xs)
      | _ \<Rightarrow> cur)"

fun navigate ::
  "string list \<Rightarrow> (json \<Rightarrow> js_error + json \<times> 'r) \<Rightarrow> json \<Rightarrow> js_error + json \<times> 'r" where
  "navigate [] f cur = f cur"
| "navigate (k # ks) f cur =
     and_then (get_prop cur k) (\<lambda>v.
     and_then (if \<not> truthy_json v then set_prop cur k (JObj []) else Inr cur) (\<lambda>cur1.
     and_then (get_prop cur1 k) (\<lambda>child.
     and_then (navigate ks f child) (\<lambda>(child', r).
       Inr (put_back cur1 k child', r)))))"

definition test_warning :: "string \<Rightarrow> string" where
  "test_warning pth = ''State delta test failed for path: '' @ pth"

text \<open>The \<open>switch (patch.op)\<close> at the node \<open>current\<close>; the second component is what it warns.\<close>

definition apply_op :: "Patch \<Rightarrow> string \<Rightarrow> json \<Rightarrow> js_error + json \<times> string list" where
  "apply_op p key cur =
     (case op p of
        Add \<Rightarrow> and_then (set_prop cur key (patch_value p)) (\<lambda>c. Inr (c, []))
      | Replace \<Rightarrow> and_then (set_prop cur key (patch_value p)) (\<lambda>c. Inr (c, []))
      | Remove \<Rightarrow> and_then (delete_prop cur key) (\<lambda>c. Inr (c, []))
      | Move \<Rightarrow>
          (if patch_value p \<noteq> JUndefined
           then and_then (set_prop cur key (patch_value p)) (\<lambda>c. Inr (c, []))
           else Inr (cur, []))
      | Copy \<Rightarrow>
          (if patch_value p \<noteq> JUndefined
           then and_then (set_prop cur key (patch_value p)) (\<lambda>c. Inr (c, []))
           else Inr (cur, []))
      | Test \<Rightarrow>
          and_then (get_prop cur key) (\<lambda>v.
            Inr (cur, if \<not> strict_eq v (patch_value p) then [test_warning (path p)] else [])))"

text \<open>The body of the \<open>for (const patch of delta.patch)\<close> loop.\<close>

definition apply_patch :: "json \<Rightarrow> Patch \<Rightarrow> js_error + json \<times> string list" where
  "apply_patch root p =
     (let parts = pathParts (path p)
      in navigate (butlast parts) (apply_op p (path_key parts)) root)"

fun apply_patches :: "Patch list \<Rightarrow> json \<times> string list \<Rightarrow> js_error + json \<times> string list" where
  "apply_patches [] st = Inr st"
| "apply_patches (p # ps) (root, ws) =
     and_then (apply_patch root p) (\<lambda>(root', w). apply_patches ps (root', ws @ w))"

subsection \<open>Deltas: the deep copy and the state it yields\<close>

text \<open>
  \<open>JSON.parse(JSON.stringify(state))\<close>: the state as a fresh JSON tree. A property whose
  value is \<open>undefined\<close> is left out by \<open>JSON.stringify\<close>. The records do not track the order
  of the keys of the content and upload objects; the copy lists them in the order in
  which the object literals of \<open>UIManager.ts\<close> create them. Nothing in the program depends
  on that order.
\<close>

definition opt_field :: "string \<Rightarrow> ('a \<Rightarrow> json) \<Rightarrow> 'a option \<Rightarrow> (string \<times> json) list" where
  "opt_field k f x = (case x of None \<Rightarrow> [] | Some v \<Rightarrow> [(k, f v)])"

fun status_string :: "UploadStatus \<Rightarrow> string" where
  "status_string Idle = ''idle''"
| "status_string Uploading = ''uploading''"
| "status_string Completed = ''completed''"
| "status_string Error = ''error''"

definition content_json :: "ContentState \<Rightarrow> json" where
  "content_json c =
     JObj ((''visible'', JBool (c_visible c)) # opt_field ''text'' JStr (c_text c))"

definition upload_json :: "MediaUploadState \<Rightarrow> json" where
  "upload_json u =
     JObj ([(''visible'', JBool (m_visible u)), (''status'', JStr (status_string (m_status u)))]
           @ opt_field ''acceptedTypes'' (\<lambda>ts. JArr (map JStr ts)) (m_acceptedTypes u)
           @ opt_field ''multiple'' JBool (m_multiple u)
           @ opt_field ''label'' JStr (m_label u))"

text \<open>The decimal numeral of a number: the name of the property at that position.\<close>

fun show_nat :: "nat \<Rightarrow> string" where
  "show_nat n =
     (if n < 10 then [char_of (48 + n)] else show_nat (n div 10) @ [char_of (48 + n mod 10)])"

declare show_nat.simps [simp del]

definition chars_json :: "string \<Rightarrow> (string \<times> json) list" where
  "chars_json s = zip (map show_nat [0..<length s]) (map (\<lambda>c. JStr [c]) s)"

definition button_json :: "ButtonState \<Rightarrow> json" where
  "button_json b =
     JObj (chars_json (b_chars b)
           @ opt_field ''visible'' JBool (b_visible b)
           @ opt_field ''enabled'' JBool (b_enabled b)
           @ opt_field ''label'' JStr (b_label b)
           @ opt_field ''action'' JStr (b_action b)
           @ opt_field ''style'' (\<lambda>st. JStr (style_string st)) (b_style b))"

definition state_json :: "UIState \<Rightarrow> json" where
  "state_json s =
     JObj [(''content'', content_json (content s)),
           (''mediaUpload'', upload_json (mediaUpload s)),
           (''buttons'', JObj (map (\<lambda>(k, b). (k, button_json b)) (buttons s)))]"

text \<open>
  The way back: a tree read as a \<open>UIState\<close>. The source takes any tree for one without a
  check (the return type of \<open>applyStateDelta\<close> and the casts in \<open>applySnapshot\<close> are
  unchecked annotations). The model reads the tree as a \<open>UIState\<close> where it is one (the
  keys of the interfaces, each of its type; a property with value \<open>undefined\<close> counts as
  absent; a button object as described with \<open>ButtonState\<close>) and gives \<open>None\<close> where it is
  not.
\<close>

definition field :: "(string \<times> json) list \<Rightarrow> string \<Rightarrow> json" where
  "field kvs k = (case map_of kvs k of Some v \<Rightarrow> v | None \<Rightarrow> JUndefined)"

definition only_keys :: "string list \<Rightarrow> (string \<times> json) list \<Rightarrow> bool" where
  "only_keys ks kvs = list_all (\<lambda>(k, v). k \<in> set ks \<or> v = JUndefined) kvs"

fun bool_of :: "json \<Rightarrow> bool option" where
  "bool_of (JBool b) = Some b"
| "bool_of _ = None"

fun opt_of :: "(json \<Rightarrow> 'a option) \<Rightarrow> json \<Rightarrow> 'a option option" where
  "opt_of f JUndefined = Some None"
| "opt_of f j = map_option Some (f j)"

fun string_of :: "json \<Rightarrow> string option" where
  "string_of (JStr s) = Some s"
| "string_of _ = None"

fun strings_of :: "json \<Rightarrow> string list option" where
  "strings_of (JArr xs) = those (map string_of xs)"
| "strings_of _ = None"

fun status_of :: "json \<Rightarrow> UploadStatus option" where
  "status_of (JStr s) =
     (if s = ''idle'' then Some Idle else if s = ''uploading'' then Some Uploading
      else if s = ''completed'' then Some Completed else if s = ''error'' then Some Error
      else None)"
| "status_of _ = None"

fun style_of :: "json \<Rightarrow> ButtonStyle option" where
  "style_of (JStr s) =
     (if s = ''primary'' then Some Primary else if s = ''secondary'' then Some Secondary
      else if s = ''danger'' then Some Danger else None)"
| "style_of _ = None"

fun content_of :: "json \<Rightarrow> ContentState option" where
  "content_of (JObj kvs) =
     (if only_keys [''text'', ''visible''] kvs
      then (case (opt_of string_of (field kvs ''text''), bool_of (field kvs ''visible'')) of
              (Some t, Some v) \<Rightarrow> Some \<lparr>c_text = t, c_visible = v\<rparr>
            | _ \<Rightarrow> None)
      else None)"
| "content_of _ = None"

fun upload_of :: "json \<Rightarrow> MediaUploadState option" where
  "upload_of (JObj kvs) =
     (if only_keys [''visible'', ''status'', ''acceptedTypes'', ''multiple'', ''label''] kvs
      then (case (bool_of (field kvs ''visible''), status_of (field kvs ''status''),
                  opt_of strings_of (field kvs ''acceptedTypes''),
                  opt_of bool_of (field kvs ''multiple''),
                  opt_of string_of (field kvs ''label'')) of
              (Some v, Some st, Some ts, Some mu, Some l) \<Rightarrow>
                Some \<lparr>m_visible = v, m_status = st, m_acceptedTypes = ts,
                      m_multiple = mu, m_label = l\<rparr>
            | _ \<Rightarrow> None)
      else None)"
| "upload_of _ = None"

definition buttonNames :: "string list" where
  "buttonNames = [''visible'', ''enabled'', ''label'', ''action'', ''style'']"

fun char_of_json :: "json \<Rightarrow> char option" where
  "char_of_json (JStr s) = (if length s = 1 then Some (hd s) else None)"
| "char_of_json _ = None"

fun button_of :: "json \<Rightarrow> ButtonState option" where
  "button_of (JObj kvs) =
     (let cs = takeWhile (\<lambda>(k, v). k \<notin> set buttonNames) kvs;
          rest = dropWhile (\<lambda>(k, v). k \<notin> set buttonNames) kvs
      in if map fst cs = map show_nat [0..<length cs] \<and> only_keys buttonNames rest
         then (case (those (map (char_of_json \<circ> snd) cs),
                     opt_of bool_of (field rest ''visible''),
                     opt_of bool_of (field rest ''enabled''),
                     opt_of string_of (field rest ''label''),
                     opt_of string_of (field rest ''action''),
                     opt_of style_of (field rest ''style'')) of
                 (Some chars, Some v, Some e, Some l, Some a, Some st) \<Rightarrow>
                   Some \<lparr>b_visible = v, b_enabled = e, b_label = l, b_action = a, b_style = st,
                         b_chars = chars\<rparr>
               | _ \<Rightarrow> None)
         else None)"
| "button_of _ = None"

fun buttons_of :: "json \<Rightarrow> Buttons option" where
  "buttons_of (JObj kvs) = those (map (\<lambda>(k, v). map_option (Pair k) (button_of v)) kvs)"
| "buttons_of _ = None"

fun state_of :: "json \<Rightarrow> UIState option" where
  "state_of (JObj kvs) =
     (if only_keys [''content'', ''mediaUpload'', ''buttons''] kvs
      then (case (content_of (field kvs ''content''), upload_of (field kvs ''mediaUpload''),
                  buttons_of (field kvs ''buttons'')) of
              (Some c, Some u, Some bs) \<Rightarrow> Some \<lparr>content = c, mediaUpload = u, buttons = bs\<rparr>
            | _ \<Rightarrow> None)
      else None)"
| "state_of _ = None"

subsection \<open>Deltas: \<open>applyStateDelta\<close> and \<open>applyDelta\<close>\<close>

definition applyStateDelta :: "UIState \<Rightarrow> StateDelta \<Rightarrow> js_error + json \<times> string list" where
  "applyStateDelta s delta = apply_patches (patch delta) (state_json s, [])"

text \<open>
  \<open>this.state = tree; this.notifyListeners()\<close>, for a tree that a message brought or
  that \<open>applyStateDelta\<close> built. The tree is a new object with a new buttons object.
  Where it reads as a \<open>UIState\<close> the result is the manager holding it (\<open>Held\<close>). Where it
  does not, the manager is left holding a value that is not a \<open>UIState\<close>: \<open>Foreign j m\<close>
  says that \<open>this.state\<close> is now the tree \<open>j\<close>, that every listener of \<open>m\<close> has been
  called once with \<open>j\<close>, and that the other fields are those of \<open>m\<close>. What later calls do
  with such a state is not followed.
\<close>

datatype Outcome = Held UIManager | Foreign json UIManager

text \<open>A change of the manager under either outcome.\<close>

fun outcome_map :: "(UIManager \<Rightarrow> UIManager) \<Rightarrow> Outcome \<Rightarrow> Outcome" where
  "outcome_map f (Held m) = Held (f m)"
| "outcome_map f (Foreign j m) = Foreign j (f m)"

definition set_state :: "json \<Rightarrow> UIManager \<Rightarrow> Outcome" where
  "set_state tree m =
     (case state_of tree of
        Some s \<Rightarrow>
          (let (newState, h') = new_state s (heap m)
           in Held (notifyListeners (m\<lparr>state := newState, heap := h'\<rparr>)))
      | None \<Rightarrow> Foreign tree m)"

text \<open>
  \<open>applyDelta\<close>: the patched copy becomes the state. When \<open>applyStateDelta\<close> throws, the
  assignment and the notification do not happen.
\<close>

definition applyDelta :: "UIManager \<Rightarrow> StateDelta \<Rightarrow> js_error + Outcome" where
  "applyDelta m delta =
     and_then (applyStateDelta (current m) delta) (\<lambda>(root, ws).
       Inr (set_state root (m\<lparr>warnings := warnings m @ ws\<rparr>)))"

subsection \<open>Snapshots\<close>

text \<open>
  The test of \<open>applySnapshot\<close>:
  \<open>snapshot.state && typeof snapshot.state === 'object' && 'ui' in snapshot.state\<close>.
  \<open>typeof\<close> is \<open>'object'\<close> for \<open>null\<close>, arrays and objects; no prototype has a property
  \<open>ui\<close>, so \<open>in\<close> finds an own property of an object and nothing in an array.
\<close>

fun typeof_object :: "json \<Rightarrow> bool" where
  "typeof_object JNull = True"
| "typeof_object (JArr _) = True"
| "typeof_object (JObj _) = True"
| "typeof_object _ = False"

fun ui_in :: "json \<Rightarrow> bool" where
  "ui_in (JObj kvs) = (''ui'' \<in> set (map fst kvs))"
| "ui_in _ = False"

fun ui_of :: "json \<Rightarrow> json" where
  "ui_of (JObj kvs) = field kvs ''ui''"
| "ui_of _ = JUndefined"

definition applySnapshot :: "UIManager \<Rightarrow> json \<Rightarrow> Outcome" where
  "applySnapshot m snapshot_state =
     (if truthy_json snapshot_state \<and> typeof_object snapshot_state \<and> ui_in snapshot_state
      then set_state (ui_of snapshot_state) m
      else set_state snapshot_state m)"

subsection \<open>\<open>processMessage\<close>\<close>

definition processMessage :: "UIManager \<Rightarrow> Message \<Rightarrow> js_error + Outcome" where
  "processMessage m message =
     (case message of
        DirectiveMsg d \<Rightarrow> Inr (Held (applyDirective m d))
      | SnapshotMsg snapshot_state \<Rightarrow> Inr (applySnapshot m snapshot_state)
      | DeltaMsg delta \<Rightarrow> applyDelta m delta
      | OtherMsg _ \<Rightarrow> Inr (Held m))"

section \<open>The stream demultiplexer (hooks/useAgUIClientWithUIManager.ts)\<close>

text \<open>
  What the hook reads of a parsed payload. \<open>FDone\<close> is an object with a truthy \<open>done\<close>
  (what \<open>parseSSEData\<close> returns for the sentinel); \<open>FMessage\<close> a payload whose \<open>type\<close>
  is \<open>ui-directive\<close>, \<open>state-snapshot\<close> or \<open>state-delta\<close>; \<open>FResponseMessages\<close> carries
  the content of \<open>messages[0]\<close> when that message is there; \<open>FOther\<close> is any other
  truthy value.
\<close>

datatype MessageContent = ContentString string | ContentObject "string option" "string option"

datatype Frame =
    FDone
  | FMessage Message
  | FTextDelta string
  | FResponseMessages "MessageContent option"
  | FError "string option"
  | FOther

text \<open>
  \<open>String.prototype.trim\<close>. A \<open>string\<close> is a list of 8-bit characters, the code units
  below 256; the white space and line terminators among them are these.
\<close>

definition is_space :: "char \<Rightarrow> bool" where
  "is_space c =
     (c \<in> set [CHR '' '', CHR 0x09, CHR 0x0A, CHR 0x0B, CHR 0x0C, CHR 0x0D, CHR 0xA0])"

definition trim :: "string \<Rightarrow> string" where
  "trim s = rev (dropWhile is_space (rev (dropWhile is_space s)))"

text \<open>
  \<open>parseSSEData\<close>. \<open>JSON.parse\<close> is the parameter \<open>JSON_parse\<close>: it gives \<open>None\<close> where
  \<open>JSON.parse\<close> throws or returns a falsy value, both of which the callers skip.
\<close>

definition parseSSEData :: "(string \<Rightarrow> Frame option) \<Rightarrow> string \<Rightarrow> Frame option" where
  "parseSSEData JSON_parse data =
     (if take 6 data \<noteq> ''data: '' then None
      else (let jsonData = trim (drop 6 data)
            in if jsonData = ''[DONE]'' then Some FDone else JSON_parse jsonData))"

text \<open>
  The local variables of \<open>sendMessage\<close> that the stream loop works on, with the manager.
\<close>

record Turn =
  manager :: UIManager
  finalContent :: string
  buffer :: string

text \<open>
  How a piece of the loop ends: it goes on (\<open>Next\<close>), leaves the loop (\<open>Break\<close>), leaves
  \<open>sendMessage\<close> (\<open>Return\<close>), or throws into the \<open>catch\<close> block. \<open>Strays j t\<close> is the
  loop at the point where \<open>processMessage\<close> has left the manager of \<open>t\<close> holding the tree
  \<open>j\<close>, which is not a \<open>UIState\<close>; the stream is not followed beyond it.
\<close>

datatype Flow = Next Turn | Break Turn | Return Turn | Throw js_error Turn | Strays json Turn

text \<open>A change of the turn under whichever outcome.\<close>

fun flow_map :: "(Turn \<Rightarrow> Turn) \<Rightarrow> Flow \<Rightarrow> Flow" where
  "flow_map f (Next t) = Next (f t)"
| "flow_map f (Break t) = Break (f t)"
| "flow_map f (Return t) = Return (f t)"
| "flow_map f (Throw e t) = Throw e (f t)"
| "flow_map f (Strays j t) = Strays j (f t)"

definition forward :: "Message \<Rightarrow> Turn \<Rightarrow> Flow" where
  "forward msg t =
     (case processMessage (manager t) msg of
        Inl e \<Rightarrow> Throw e t
      | Inr (Held m') \<Rightarrow> Next (t\<lparr>manager := m'\<rparr>)
      | Inr (Foreign j m') \<Rightarrow> Strays j (t\<lparr>manager := m'\<rparr>))"

text \<open>The chain of \<open>if (parsed.type === ...)\<close> in the stream loop.\<close>

fun handle_frame :: "Frame \<Rightarrow> Turn \<Rightarrow> Flow" where
  "handle_frame FDone t = Break t"
| "handle_frame (FMessage msg) t = forward msg t"
| "handle_frame (FTextDelta c) t = Next (t\<lparr>finalContent := finalContent t @ c\<rparr>)"
| "handle_frame (FResponseMessages None) t = Next t"
| "handle_frame (FResponseMessages (Some (ContentString s))) t = Next (t\<lparr>finalContent := s\<rparr>)"
| "handle_frame (FResponseMessages (Some (ContentObject tx ct))) t =
     Next (t\<lparr>finalContent :=
               (if truthy tx then the tx else if truthy ct then the ct else [])\<rparr>)"
| "handle_frame (FError c) t =
     Return (t\<lparr>finalContent := ''Error: '' @ (if truthy c then the c else ''Unknown error'')\<rparr>)"
| "handle_frame FOther t = Next t"

fun process_lines :: "(string \<Rightarrow> Frame option) \<Rightarrow> string list \<Rightarrow> Turn \<Rightarrow> Flow" where
  "process_lines JSON_parse [] t = Next t"
| "process_lines JSON_parse (line # rest) t =
     (case parseSSEData JSON_parse line of
        None \<Rightarrow> process_lines JSON_parse rest t
      | Some parsed \<Rightarrow>
          (case handle_frame parsed t of
             Next t' \<Rightarrow> process_lines JSON_parse rest t'
           | other \<Rightarrow> other))"

text \<open>
  The \<open>while (!streamDone)\<close> loop over the chunks the reader delivers (decoded text); the
  empty list is the reader reporting \<open>done\<close>. \<open>Next\<close> is the loop left in the regular way.
\<close>

fun read_loop :: "(string \<Rightarrow> Frame option) \<Rightarrow> string list \<Rightarrow> Turn \<Rightarrow> Flow" where
  "read_loop JSON_parse [] t = Next t"
| "read_loop JSON_parse (chunk # chunks) t =
     (let lines = split [CHR 0x0A, CHR 0x0A] (buffer t @ chunk);
          t1 = t\<lparr>buffer := (if lines = [] then [] else last lines)\<rparr>
      in (case process_lines JSON_parse (butlast lines) t1 of
            Next t2 \<Rightarrow> read_loop JSON_parse chunks t2
          | Break t2 \<Rightarrow> Next t2
          | other \<Rightarrow> other))"

text \<open>\<open>// Process any remaining buffered data\<close>: only the three UI message types.\<close>

definition flush_buffer :: "(string \<Rightarrow> Frame option) \<Rightarrow> Turn \<Rightarrow> Flow" where
  "flush_buffer JSON_parse t =
     (if buffer t = [] then Next t
      else (case parseSSEData JSON_parse (buffer t) of
              Some (FMessage msg) \<Rightarrow> forward msg t
            | _ \<Rightarrow> Next t))"

text \<open>
  The streaming part of \<open>sendMessage\<close>: \<open>uiManager.reset()\<close>, the read loop, the rest of the
  buffer.
\<close>

definition sendMessage_stream :: "(string \<Rightarrow> Frame option) \<Rightarrow> string list \<Rightarrow> UIManager \<Rightarrow> Flow" where
  "sendMessage_stream JSON_parse chunks uiManager =
     (case read_loop JSON_parse chunks \<lparr>manager = reset uiManager, finalContent = [], buffer = []\<rparr> of
        Next t \<Rightarrow> flush_buffer JSON_parse t
      | other \<Rightarrow> other)"

section \<open>Sample inputs\<close>

text \<open>Concrete managers, directives and messages, used to run the definitions.\<close>

definition empty_heap :: Heap where
  "empty_heap = \<lparr>cells = (\<lambda>_. []), protos = (\<lambda>_. None), nxt = 0\<rparr>"

definition no_props :: Props where
  "no_props =
     \<lparr>p_text = None, p_visible = None, p_accept = None, p_multiple = None,
      p_uploadLabel = None, p_buttonId = None, p_buttonLabel = None, p_enabled = None,
      p_action = None, p_style = None\<rparr>"

definition directive :: "Action \<Rightarrow> Props \<Rightarrow> UIDirective" where
  "directive a p = \<lparr>action = a, component = None, props = Some p\<rparr>"

text \<open>A new manager with two subscribers.\<close>

definition watched :: UIManager where
  "watched = subscribe 2 (subscribe 1 (UIManager_new empty_heap None))"

text \<open>The manager after \<open>show-button\<close> for a button \<open>confirm\<close>.\<close>

definition confirm_props :: Props where
  "confirm_props =
     no_props\<lparr>p_buttonId := Some ''confirm'', p_buttonLabel := Some ''OK'', p_action := Some ''go''\<rparr>"

definition with_confirm :: UIManager where
  "with_confirm = applyDirective watched (directive ShowButton confirm_props)"

definition button_props :: "string \<Rightarrow> Props" where
  "button_props k = no_props\<lparr>p_buttonId := Some k\<rparr>"

definition disable_confirm :: UIDirective where
  "disable_confirm = directive UpdateButton ((button_props ''confirm'')\<lparr>p_enabled := Some False\<rparr>)"

definition blank_confirm :: UIDirective where
  "blank_confirm = directive UpdateButton ((button_props ''confirm'')\<lparr>p_buttonLabel := Some []\<rparr>)"

text \<open>The manager after an upload has completed, its auto-hide timer pending.\<close>

definition upload_done :: UIManager where
  "upload_done = updateMediaUploadStatus watched Completed"

text \<open>Patches, and the batch of a failing test followed by a replace.\<close>

definition patch_at :: "PatchOp \<Rightarrow> string \<Rightarrow> json \<Rightarrow> Patch" where
  "patch_at oper pth v = \<lparr>op = oper, path = pth, patch_value = v\<rparr>"


text \<open>
  A response body of three frames: a text delta, a \<open>show-upload\<close> directive, the
  sentinel; and a \<open>JSON.parse\<close> that knows the two payloads.
\<close>

definition hello_payload :: string where
  \<open>hello_payload = ''{"type":"text-delta","content":"Hello"}''\<close>

definition upload_payload :: string where
  \<open>upload_payload =
     ''{"type":"ui-directive","action":"show-upload","props":{"accept":"image/*"}}''\<close>

definition blank_line :: string where
  "blank_line = [CHR 0x0A, CHR 0x0A]"

definition sample_frames :: "string list" where
  "sample_frames =
     [''data: '' @ hello_payload @ blank_line,
      ''data: '' @ upload_payload @ blank_line,
      ''data: [DONE]'' @ blank_line]"

definition show_upload_images :: UIDirective where
  "show_upload_images = directive ShowUpload (no_props\<lparr>p_accept := Some ''image/*''\<rparr>)"

definition sample_parse :: "string \<Rightarrow> Frame option" where
  "sample_parse s =
     (if s = hello_payload then Some (FTextDelta ''Hello'')
      else if s = upload_payload then Some (FMessage (DirectiveMsg show_upload_images))
      else None)"


text \<open>
  Button directives whose \<open>buttonId\<close> is the name of a member of \<open>Object.prototype\<close>.
\<close>

definition hide_toString :: UIDirective where
  "hide_toString = directive HideButton (button_props ''toString'')"

definition disable_constructor :: UIDirective where
  "disable_constructor =
     directive UpdateButton ((button_props ''constructor'')\<lparr>p_enabled := Some False\<rparr>)"

text \<open>
  Snapshots: the \<open>state\<close> of a message \<open>{state: {ui: S}}\<close>; a state with the upload shown;
  and the tree that the delta \<open>replace /ui/ui/content/text\<close> makes of the initial state,
  which has a key \<open>ui\<close>.
\<close>

definition under_ui :: "json \<Rightarrow> json" where
  "under_ui S = JObj [(''ui'', S)]"

definition shown_upload :: UIState where
  "shown_upload = initialState\<lparr>mediaUpload := (mediaUpload initialState)\<lparr>m_visible := True\<rparr>\<rparr>"

definition state_with_ui :: json where
  "state_with_ui =
     JObj [(''content'', JObj [(''visible'', JBool False), (''text'', JStr [])]),
           (''mediaUpload'',
            JObj [(''visible'', JBool False), (''status'', JStr ''idle''),
                  (''acceptedTypes'', JArr [JStr ''image/*'']), (''multiple'', JBool False)]),
           (''buttons'', JObj []),
           (''ui'', JObj [(''content'', JObj [(''text'', JStr ''X'')])])]"

section \<open>Properties\<close>

lemmas manager_defs =
  UIManager_new_def getInitialState_def new_state_def alloc_def initialState_def
  subscribe_def notifyListeners_def getState_def current_def deref_def empty_heap_def
  watched_def

lemmas directive_defs =
  applyDirective_def applyUIDirective_def props_get_def nullish_def set_button_def
  get_button_def directive_def no_props_def put_prop_def

lemma deref_new_state: "deref (snd (new_state s h)) (fst (new_state s h)) = s"
  by (simp add: new_state_def alloc_def deref_def)

subsection \<open>Own properties\<close>

lemma index_of_letter: "hd k \<notin> set ''0123456789'' \<Longrightarrow> index_of k = None"
  by (cases k) (auto simp: index_of_def Let_def)

lemma map_of_insert_index:
  "k \<notin> set (map fst kvs) \<Longrightarrow> map_of (insert_index i k v kvs) = (map_of kvs)(k \<mapsto> v)"
proof (induction kvs)
  case Nil
  then show ?case by simp
next
  case (Cons kv kvs)
  obtain k' v' where kv: "kv = (k', v')" by (cases kv)
  from Cons.prems kv have ne: "k' \<noteq> k" by auto
  from Cons.prems kv have "k \<notin> set (map fst kvs)" by simp
  from Cons.IH [OF this] have IH: "map_of (insert_index i k v kvs) = (map_of kvs)(k \<mapsto> v)" .
  show ?case
    using ne by (auto simp: kv IH fun_eq_iff split: option.splits)
qed

lemma map_of_put_prop: "map_of (put_prop k v kvs) = (map_of kvs)(k \<mapsto> v)"
proof (cases "k \<in> set (map fst kvs)")
  case True
  then show ?thesis by (simp add: put_prop_def update_conv')
next
  case False
  then have "map_of kvs k = None" by (simp add: map_of_eq_None_iff)
  then have "map_of (kvs @ [(k, v)]) = (map_of kvs)(k \<mapsto> v)"
    by (auto simp: map_add_def fun_eq_iff split: option.splits)
  with False show ?thesis
    by (simp add: put_prop_def map_of_insert_index split: option.splits)
qed

lemma put_prop_own:
  "map_of kvs k = Some b \<Longrightarrow> put_prop k v kvs = AList.update k v kvs"
  by (auto simp: put_prop_def map_of_eq_None_iff [symmetric] simp del: map_of_eq_None_iff)

lemma keys_update_own:
  "map_of kvs k = Some b \<Longrightarrow> map fst (AList.update k v kvs) = map fst kvs"
  by (induction kvs) auto

subsection \<open>Reading a state back from its JSON copy\<close>

lemma strings_roundtrip: "those (map (string_of \<circ> JStr) ts) = Some ts"
  by (induction ts) simp_all

lemma status_roundtrip: "status_of (JStr (status_string st)) = Some st"
  by (cases st) simp_all

lemma style_roundtrip: "style_of (JStr (style_string st)) = Some st"
  by (cases st) simp_all

lemma content_roundtrip: "content_of (content_json c) = Some c"
  by (cases "c_text c") (simp_all add: content_json_def opt_field_def only_keys_def field_def)

lemma upload_roundtrip: "upload_of (upload_json u) = Some u"
  by (cases "m_acceptedTypes u"; cases "m_multiple u"; cases "m_label u")
     (simp_all add: upload_json_def opt_field_def only_keys_def field_def status_roundtrip
        strings_roundtrip del: status_of.simps)

lemma digit_chars: "\<forall>n \<in> set [0..<10]. char_of (48 + n) \<in> set ''0123456789''"
  by code_simp

lemma digit_char: "n < 10 \<Longrightarrow> char_of (48 + n) \<in> set ''0123456789''" for n :: nat
  using digit_chars [THEN bspec, of n] by simp

lemma show_nat_digits: "set (show_nat n) \<subseteq> set ''0123456789'' \<and> show_nat n \<noteq> []"
proof (induction n rule: show_nat.induct)
  case (1 n)
  show ?case
  proof (cases "n < 10")
    case True
    then show ?thesis using digit_char [OF True] by (subst show_nat.simps, subst show_nat.simps) simp
  next
    case False
    have "n mod 10 < 10" by simp
    from digit_char [OF this] 1 [OF False] False show ?thesis
      by (subst show_nat.simps, subst (2) show_nat.simps) simp
  qed
qed

lemma show_nat_not_name: "show_nat n \<notin> set buttonNames"
proof
  assume "show_nat n \<in> set buttonNames"
  then have "CHR ''e'' \<in> set (show_nat n) \<or> CHR ''a'' \<in> set (show_nat n)"
    by (auto simp: buttonNames_def)
  with show_nat_digits [of n] show False by auto
qed

lemma takeWhile_all_none:
  "\<forall>x \<in> set xs. P x \<Longrightarrow> \<forall>y \<in> set ys. \<not> P y \<Longrightarrow>
   takeWhile P (xs @ ys) = xs \<and> dropWhile P (xs @ ys) = ys"
  by (cases ys) (simp_all add: takeWhile_append2 dropWhile_append2)

lemma chars_json_keys:
  "map fst (chars_json s) = map show_nat [0..<length s]" "length (chars_json s) = length s"
  "\<forall>x \<in> set (chars_json s). (case x of (k, v) \<Rightarrow> k \<notin> set buttonNames)"
  by (auto simp: chars_json_def show_nat_not_name dest!: set_zip_leftD)

lemma chars_roundtrip: "those (map (char_of_json \<circ> snd) (chars_json s)) = Some s"
proof -
  have "map snd (chars_json s) = map (\<lambda>c. JStr [c]) s"
    by (simp add: chars_json_def)
  then have "map char_of_json (map snd (chars_json s)) = map Some s"
    by simp
  then have "map (char_of_json \<circ> snd) (chars_json s) = map Some s"
    by (simp only: map_map)
  moreover have "those (map Some s) = Some s" by (induction s) simp_all
  ultimately show ?thesis by simp
qed

lemma button_roundtrip: "button_of (button_json b) = Some b"
proof -
  let ?P = "\<lambda>(k, v). k \<notin> set buttonNames"
  let ?rest = "opt_field ''visible'' JBool (b_visible b)
             @ opt_field ''enabled'' JBool (b_enabled b)
             @ opt_field ''label'' JStr (b_label b)
             @ opt_field ''action'' JStr (b_action b)
             @ opt_field ''style'' (\<lambda>st. JStr (style_string st)) (b_style b)"
  have rest: "\<forall>y \<in> set ?rest. \<not> ?P y"
    by (auto simp: opt_field_def buttonNames_def split: option.splits)
  have tw: "takeWhile ?P (chars_json (b_chars b) @ ?rest) = chars_json (b_chars b)"
    "dropWhile ?P (chars_json (b_chars b) @ ?rest) = ?rest"
    using takeWhile_all_none [OF chars_json_keys(3) rest] by simp_all
  have fields:
    "only_keys buttonNames ?rest"
    "opt_of bool_of (field ?rest ''visible'') = Some (b_visible b)"
    "opt_of bool_of (field ?rest ''enabled'') = Some (b_enabled b)"
    "opt_of string_of (field ?rest ''label'') = Some (b_label b)"
    "opt_of string_of (field ?rest ''action'') = Some (b_action b)"
    "opt_of style_of (field ?rest ''style'') = Some (b_style b)"
    by (cases "b_visible b"; cases "b_enabled b"; cases "b_label b"; cases "b_action b";
        cases "b_style b";
        simp add: opt_field_def only_keys_def field_def buttonNames_def style_roundtrip
          del: style_of.simps)+
  show ?thesis
    unfolding button_json_def button_of.simps Let_def tw
    by (simp add: chars_json_keys chars_roundtrip fields del: opt_of.simps)
qed

lemma buttons_roundtrip: "buttons_of (JObj (map (\<lambda>(k, b). (k, button_json b)) bs)) = Some bs"
  by (induction bs) (auto simp: button_roundtrip simp del: button_of.simps)

text \<open>A delta without patches gives the state back: the copy reads as the state it copies.\<close>

lemma state_roundtrip: "state_of (state_json s) = Some s"
  by (simp add: state_json_def only_keys_def field_def content_roundtrip upload_roundtrip
      buttons_roundtrip del: buttons_of.simps)

lemma set_state_roundtrip:
  "set_state (state_json s) m =
     Held (notifyListeners (m\<lparr>state := fst (new_state s (heap m)), heap := snd (new_state s (heap m))\<rparr>))"
  by (simp add: set_state_def state_roundtrip split_beta)

subsection \<open>The listener set\<close>

lemma distinct_subscribe: "distinct (listeners m) \<Longrightarrow> distinct (listeners (subscribe l m))"
  by (simp add: subscribe_def)

lemma distinct_unsubscribe: "distinct (listeners m) \<Longrightarrow> distinct (listeners (unsubscribe l m))"
  by (simp add: unsubscribe_def distinct_removeAll)


subsection \<open>Reset\<close>

text \<open>
  C9. After \<open>reset()\<close> the state reads as \<open>initialState\<close> (content hidden with empty text,
  upload hidden and idle accepting \<open>image/*\<close>, not multiple, no buttons), whatever the
  manager was before, and each listener has been called with the new state.
\<close>

theorem reset_yields_initialState:
  "current (reset m) = initialState \<and>
   current (reset m) =
     \<lparr>content = \<lparr>c_text = Some [], c_visible = False\<rparr>,
      mediaUpload = \<lparr>m_visible = False, m_status = Idle, m_acceptedTypes = Some [''image/*''],
                      m_multiple = Some False, m_label = None\<rparr>,
      buttons = []\<rparr> \<and>
   notified (reset m) = notified m @ map (\<lambda>l. (l, getState (reset m))) (listeners m)"
  by (simp add: reset_def current_def notifyListeners_def getState_def getInitialState_def
      split_beta deref_new_state)
     (simp add: initialState_def)

theorem reset_yields_initialState_witness:
  "current (reset (applyDirective watched (directive ShowUpload no_props))) = initialState \<and>
   map fst (notified (reset watched)) = [1, 2]"
  using reset_yields_initialState [of "applyDirective watched (directive ShowUpload no_props)"]
        reset_yields_initialState [of watched]
  by (simp add: manager_defs)

subsection \<open>Notification\<close>



subsection \<open>Messages that are ignored\<close>

lemma applyUIDirective_other: "action d = OtherAction a \<Longrightarrow> applyUIDirective h s d = (h, s)"
  by (simp add: applyUIDirective_def)

lemma applyUIDirective_show_no_id:
  "action d = ShowButton \<Longrightarrow> props_get p_buttonId d = None \<Longrightarrow> applyUIDirective h s d = (h, s)"
  by (cases "props d") (simp_all add: applyUIDirective_def props_get_def)

lemma applyUIDirective_hide_missing:
  "action d = HideButton \<Longrightarrow>
   (case props_get p_buttonId d of None \<Rightarrow> True | Some k \<Rightarrow> get_button h s k = None) \<Longrightarrow>
   applyUIDirective h s d = (h, s)"
  by (cases "props d"; cases "p_buttonId (the (props d))")
     (simp_all add: applyUIDirective_def props_get_def)

lemma applyUIDirective_update_missing:
  "action d = UpdateButton \<Longrightarrow>
   (case props_get p_buttonId d of None \<Rightarrow> True | Some k \<Rightarrow> get_button h s k = None) \<Longrightarrow>
   applyUIDirective h s d = (h, s)"
  by (cases "props d"; cases "p_buttonId (the (props d))")
     (simp_all add: applyUIDirective_def props_get_def)

lemma applyDirective_unchanged:
  "applyUIDirective (heap m) (state m) d = (heap m, state m) \<Longrightarrow>
   state (applyDirective m d) = state m \<and> heap (applyDirective m d) = heap m \<and>
   current (applyDirective m d) = current m"
  by (simp add: applyDirective_def notifyListeners_def current_def)

lemma with_confirm_eq:
  "with_confirm =
     \<lparr>state = \<lparr>content = content initialState, mediaUpload = mediaUpload initialState, buttons = 0\<rparr>,
      listeners = [1, 2],
      heap = \<lparr>cells = (\<lambda>_. [])(0 := [(''confirm'',
                 \<lparr>b_visible = Some True, b_enabled = Some True, b_label = Some ''OK'',
                  b_action = Some ''go'', b_style = Some Primary, b_chars = []\<rparr>)]),
              protos = (\<lambda>_. None), nxt = 1\<rparr>,
      notified =
        [(1, \<lparr>content = content initialState, mediaUpload = mediaUpload initialState, buttons = 0\<rparr>),
         (2, \<lparr>content = content initialState, mediaUpload = mediaUpload initialState, buttons = 0\<rparr>)],
      timers = 0, warnings = []\<rparr>"
  by (simp add: with_confirm_def confirm_props_def manager_defs directive_defs index_of_letter)

text \<open>
  What is ignored. \<open>processMessage\<close> with a type tag it does not know returns without
  touching the manager. A directive with an unknown action, a \<open>show-button\<close> without
  \<open>buttonId\<close>, and a \<open>hide-button\<close> or \<open>update-button\<close> whose \<open>buttonId\<close> is absent or for
  which \<open>buttons[id]\<close> is falsy, go through \<open>processMessage\<close> without an error and leave
  the state as it reads (and the state object and the store) as before.
\<close>

lemma ignored_messages:
  assumes "action d = OtherAction a
         \<or> action d = ShowButton \<and> props_get p_buttonId d = None
         \<or> (action d = HideButton \<or> action d = UpdateButton) \<and>
             (case props_get p_buttonId d of
                None \<Rightarrow> True
              | Some k \<Rightarrow> get_button (heap m) (state m) k = None)"
  shows "processMessage m (OtherMsg ty) = Inr (Held m) \<and>
         (\<exists>m'. processMessage m (DirectiveMsg d) = Inr (Held m') \<and> current m' = current m \<and>
               state m' = state m \<and> heap m' = heap m)"
proof -
  from assms have "applyUIDirective (heap m) (state m) d = (heap m, state m)"
    using applyUIDirective_other applyUIDirective_show_no_id applyUIDirective_hide_missing
      applyUIDirective_update_missing by blast
  then show ?thesis
    using applyDirective_unchanged [of m d] by (simp add: processMessage_def)
qed

text \<open>
  A name that is neither an own property of the buttons object nor found on its
  prototype chain names no button: with the prototype every buttons object starts with,
  that is every name outside \<open>protoNames\<close> that is not a key of \<open>buttons\<close>.
\<close>

lemma get_button_missing:
  "protos h (buttons s) = None \<Longrightarrow>
   get_button h s k = None \<longleftrightarrow> map_of (cells h (buttons s)) k = None \<and> k \<notin> set protoNames"
  by (simp add: get_button_def inherited_def split: option.splits)

text \<open>
  C7. \<open>hide-button\<close> and \<open>update-button\<close> test \<open>newState.buttons[id]\<close>, which also finds
  what the buttons object inherits. On a new manager, which has no button: \<open>toString\<close>
  is not a key of \<open>buttons\<close>, yet \<open>buttons['toString']\<close> is truthy, and \<open>hide-button\<close> for
  \<open>toString\<close> goes through \<open>processMessage\<close> and leaves a button \<open>toString\<close> that has the
  property \<open>visible: false\<close> and no other; \<open>update-button\<close> for \<open>constructor\<close> with
  \<open>enabled: false\<close> leaves a button \<open>constructor\<close> with that property only. The state
  after the call differs from the state before it.
\<close>

theorem button_guard_finds_inherited_names:
  "buttons (current watched) = [] \<and>
   get_button (heap watched) (state watched) ''toString'' = Some bare \<and>
   processMessage watched (DirectiveMsg hide_toString) =
     Inr (Held (applyDirective watched hide_toString)) \<and>
   buttons (current (applyDirective watched hide_toString)) =
     [(''toString'', \<lparr>b_visible = Some False, b_enabled = None, b_label = None,
                      b_action = None, b_style = None, b_chars = []\<rparr>)] \<and>
   buttons (current (applyDirective watched disable_constructor)) =
     [(''constructor'', \<lparr>b_visible = None, b_enabled = Some False, b_label = None,
                         b_action = None, b_style = None, b_chars = []\<rparr>)] \<and>
   current (applyDirective watched hide_toString) \<noteq> current watched"
  by (simp add: processMessage_def hide_toString_def disable_constructor_def button_props_def
      manager_defs directive_defs inherited_def protoNames_def bare_def index_of_def)

subsection \<open>Snapshots\<close>

lemma ui_in_state_json: "\<not> ui_in (state_json s)"
  by (simp add: state_json_def)

lemma applySnapshot_under_ui: "applySnapshot m (under_ui S) = set_state S m"
  by (simp add: applySnapshot_def under_ui_def field_def)

lemma applySnapshot_flat: "\<not> ui_in S \<Longrightarrow> applySnapshot m S = set_state S m"
  by (simp add: applySnapshot_def)

text \<open>
  C4, as the code has it. \<open>applySnapshot\<close> unwraps \<open>snapshot.state.ui\<close> whenever
  \<open>snapshot.state\<close> is an object with a key \<open>ui\<close>. For a value \<open>S\<close> that is not itself such
  an object, a snapshot that carries \<open>S\<close> under \<open>ui\<close> and one that carries \<open>S\<close> directly
  leave the manager the same, from any manager. Every \<open>UIState\<close> \<open>s\<close> of the declared shape
  is such a value: both snapshots make it the state, and each listener is called once
  with it.
\<close>

theorem snapshot_shapes_agree_without_ui_key:
  "(\<not> ui_in S \<longrightarrow>
      applySnapshot m (under_ui S) = applySnapshot m S \<and>
      processMessage m (SnapshotMsg (under_ui S)) = processMessage m (SnapshotMsg S)) \<and>
   \<not> ui_in (state_json s) \<and>
   (\<exists>m'. applySnapshot m (under_ui (state_json s)) = Held m' \<and>
         applySnapshot m (state_json s) = Held m' \<and>
         current m' = s \<and> listeners m' = listeners m \<and>
         notified m' = notified m @ map (\<lambda>l. (l, getState m')) (listeners m))"
proof -
  have "\<exists>m'. set_state (state_json s) m = Held m' \<and> current m' = s \<and> listeners m' = listeners m \<and>
              notified m' = notified m @ map (\<lambda>l. (l, getState m')) (listeners m)"
    by (simp add: set_state_roundtrip notifyListeners_def current_def getState_def deref_new_state)
  then show ?thesis
    by (simp add: applySnapshot_under_ui applySnapshot_flat ui_in_state_json processMessage_def)
qed

lemma shown_upload_differs: "current with_confirm \<noteq> shown_upload"
  by (simp add: with_confirm_eq current_def deref_def shown_upload_def initialState_def)

theorem snapshot_shapes_agree_without_ui_key_witness:
  "\<not> ui_in (state_json shown_upload) \<and>
   applySnapshot with_confirm (under_ui (state_json shown_upload)) =
     applySnapshot with_confirm (state_json shown_upload) \<and>
   (\<exists>m'. applySnapshot with_confirm (under_ui (state_json shown_upload)) = Held m' \<and>
         current m' = shown_upload) \<and>
   current with_confirm \<noteq> shown_upload"
  using snapshot_shapes_agree_without_ui_key [of "state_json shown_upload" with_confirm shown_upload]
    shown_upload_differs
  by auto

lemma state_with_ui_facts:
  "state_of state_with_ui = None"
  "state_of (JObj [(''content'', JObj [(''text'', JStr ''X'')])]) = None"
  "ui_in state_with_ui"
  "ui_of state_with_ui = JObj [(''content'', JObj [(''text'', JStr ''X'')])]"
  "applyStateDelta initialState \<lparr>patch = [patch_at Replace ''/ui/ui/content/text'' (JStr ''X'')]\<rparr> =
     Inr (state_with_ui, [])"
  "truthy_json state_with_ui" "typeof_object state_with_ui"
  by code_simp+

text \<open>
  C4 as stated fails for a state that has a key \<open>ui\<close>, such as the one the delta
  \<open>replace /ui/ui/content/text\<close> makes of the initial state. Carried under \<open>ui\<close> it becomes
  the state as it is; carried directly it is taken for the wrapper, and its \<open>ui\<close>
  property becomes the state.
\<close>

theorem flat_snapshot_with_ui_key_is_unwrapped:
  "applyStateDelta initialState \<lparr>patch = [patch_at Replace ''/ui/ui/content/text'' (JStr ''X'')]\<rparr> =
     Inr (state_with_ui, []) \<and>
   ui_in state_with_ui \<and>
   applySnapshot watched (under_ui state_with_ui) = Foreign state_with_ui watched \<and>
   applySnapshot watched state_with_ui =
     Foreign (JObj [(''content'', JObj [(''text'', JStr ''X'')])]) watched \<and>
   applySnapshot watched (under_ui state_with_ui) \<noteq> applySnapshot watched state_with_ui"
proof -
  have nested: "applySnapshot watched (under_ui state_with_ui) = Foreign state_with_ui watched"
    by (simp only: applySnapshot_under_ui set_state_def state_with_ui_facts(1) option.case)
  have "applySnapshot watched state_with_ui = set_state (ui_of state_with_ui) watched"
    by (simp only: applySnapshot_def state_with_ui_facts(3,6,7) simp_thms if_True)
  then have flat: "applySnapshot watched state_with_ui =
      Foreign (JObj [(''content'', JObj [(''text'', JStr ''X'')])]) watched"
    by (simp only: state_with_ui_facts(4) set_state_def state_with_ui_facts(2) option.case)
  have "state_with_ui \<noteq> JObj [(''content'', JObj [(''text'', JStr ''X'')])]"
    by code_simp
  with nested flat state_with_ui_facts(3,5) show ?thesis
    by simp
qed

subsection \<open>Copy-on-write\<close>

lemma applyUIDirective_heap:
  "\<not> writes_buttons (action d) \<Longrightarrow> fst (applyUIDirective h s d) = h"
  by (cases "action d") (simp_all add: applyUIDirective_def writes_buttons_def)

lemma deref_set_state:
  "buttons s0 < nxt (heap m) \<Longrightarrow> set_state j m = Held m' \<Longrightarrow>
   deref (heap m') s0 = deref (heap m) s0"
  by (auto simp: set_state_def new_state_def alloc_def split_beta notifyListeners_def deref_def
      split: option.splits)

text \<open>
  What a holder of an earlier state object \<open>s0\<close> reads stays the same through the
  directives on the content and the upload, through \<open>reset\<close>, a snapshot and a delta.
\<close>

lemma copy_on_write:
  "\<not> writes_buttons (action d) \<Longrightarrow> deref (heap (applyDirective m d)) s0 = deref (heap m) s0"
  "buttons s0 < nxt (heap m) \<Longrightarrow> deref (heap (reset m)) s0 = deref (heap m) s0"
  "buttons s0 < nxt (heap m) \<Longrightarrow> applySnapshot m snap = Held m' \<Longrightarrow>
     deref (heap m') s0 = deref (heap m) s0"
  "buttons s0 < nxt (heap m) \<Longrightarrow> applyDelta m delta = Inr (Held m') \<Longrightarrow>
     deref (heap m') s0 = deref (heap m) s0"
proof -
  show "\<not> writes_buttons (action d) \<Longrightarrow> deref (heap (applyDirective m d)) s0 = deref (heap m) s0"
    by (simp add: applyDirective_def split_beta notifyListeners_def applyUIDirective_heap)
  show "buttons s0 < nxt (heap m) \<Longrightarrow> deref (heap (reset m)) s0 = deref (heap m) s0"
    by (simp add: reset_def getInitialState_def new_state_def alloc_def split_beta
        notifyListeners_def deref_def)
  show "buttons s0 < nxt (heap m) \<Longrightarrow> applySnapshot m snap = Held m' \<Longrightarrow>
     deref (heap m') s0 = deref (heap m) s0"
    using deref_set_state [of s0 m] by (auto simp: applySnapshot_def split: if_splits)
  show "buttons s0 < nxt (heap m) \<Longrightarrow> applyDelta m delta = Inr (Held m') \<Longrightarrow>
     deref (heap m') s0 = deref (heap m) s0"
    using deref_set_state [of s0 "m\<lparr>warnings := w\<rparr>" for w]
    by (auto simp: applyDelta_def and_then_def split: sum.splits)
qed

text \<open>
  \<open>show-button\<close> with a non-empty \<open>buttonId\<close> other than \<open>__proto__\<close>, from any manager: the
  state object from before the call and the one after it refer to the same buttons
  object, and the holder of the earlier one reads the new button.
\<close>

lemma show_button_reaches_prior_state:
  assumes "action d = ShowButton" "props d = Some p" "p_buttonId p = Some k" "k \<noteq> []"
    and "k \<noteq> ''__proto__''"
  shows "buttons (getState (applyDirective m d)) = buttons (getState m)"
    and "map_of (buttons (deref (heap (applyDirective m d)) (getState m))) k =
           Some \<lparr>b_visible = Some True, b_enabled = Some (nullish (p_enabled p) True),
                 b_label = p_buttonLabel p, b_action = p_action p,
                 b_style = Some (nullish (p_style p) Primary), b_chars = []\<rparr>"
  using assms
  by (simp_all add: applyDirective_def applyUIDirective_def notifyListeners_def getState_def
      deref_def set_button_def map_of_put_prop)

text \<open>
  C1. The three button directives are not copy-on-write: the new state shares the buttons
  object of the old one and the directive writes into it. Run on a new manager: a
  holder of the state from before \<open>show-button\<close> had no buttons and now reads the button
  \<open>confirm\<close>; a holder of the state from before \<open>hide-button\<close> or \<open>update-button\<close> reads
  the button hidden or disabled.
\<close>

theorem button_directives_write_into_prior_state:
  "buttons (deref (heap watched) (getState watched)) = [] \<and>
   buttons (getState with_confirm) = buttons (getState watched) \<and>
   buttons (deref (heap with_confirm) (getState watched)) =
     [(''confirm'', \<lparr>b_visible = Some True, b_enabled = Some True, b_label = Some ''OK'',
                     b_action = Some ''go'', b_style = Some Primary, b_chars = []\<rparr>)] \<and>
   buttons (deref (heap (applyDirective with_confirm (directive HideButton (button_props ''confirm''))))
                  (getState with_confirm)) =
     [(''confirm'', \<lparr>b_visible = Some False, b_enabled = Some True, b_label = Some ''OK'',
                     b_action = Some ''go'', b_style = Some Primary, b_chars = []\<rparr>)] \<and>
   buttons (deref (heap (applyDirective with_confirm disable_confirm)) (getState with_confirm)) =
     [(''confirm'', \<lparr>b_visible = Some True, b_enabled = Some False, b_label = Some ''OK'',
                     b_action = Some ''go'', b_style = Some Primary, b_chars = []\<rparr>)]"
  by (simp add: with_confirm_eq getState_def deref_def directive_defs button_props_def
      disable_confirm_def notifyListeners_def)
     (simp add: manager_defs)

subsection \<open>The auto-hide timer\<close>

lemma timers_notifyListeners [simp]: "timers (notifyListeners m) = timers m"
  by (simp add: notifyListeners_def)

lemma timers_updateMediaUploadStatus:
  "timers (updateMediaUploadStatus m Completed) = Suc (timers m)"
  by (simp add: updateMediaUploadStatus_def Let_def)

lemma timers_reset: "timers (reset m) = timers m"
  by (simp add: reset_def split_beta)

lemma timers_applyDirective: "timers (applyDirective m d) = timers m"
  by (simp add: applyDirective_def split_beta)

lemma current_fireTimer:
  "0 < timers m \<Longrightarrow>
   current (fireTimer m) =
     (current m)\<lparr>mediaUpload := (mediaUpload (current m))\<lparr>m_visible := False, m_status := Idle\<rparr>\<rparr>"
  by (simp add: fireTimer_def autoHide_def notifyListeners_def current_def deref_def)

lemma notified_fireTimer:
  "0 < timers m \<Longrightarrow>
   notified (fireTimer m) = notified m @ map (\<lambda>l. (l, getState (fireTimer m))) (listeners m)"
  by (simp add: fireTimer_def autoHide_def notifyListeners_def getState_def)

lemma current_reset: "current (reset m) = initialState"
  by (simp add: reset_def current_def notifyListeners_def getInitialState_def split_beta
      deref_new_state)

lemma current_show_upload:
  "action d = ShowUpload \<Longrightarrow>
   current (applyDirective m d) =
     (current m)\<lparr>mediaUpload :=
        \<lparr>m_visible = True, m_status = Idle,
         m_acceptedTypes =
           Some (if truthy (props_get p_accept d) then [the (props_get p_accept d)]
                 else [''image/*'']),
         m_multiple = Some (nullish (props_get p_multiple d) False),
         m_label = props_get p_uploadLabel d\<rparr>\<rparr>"
  by (simp add: applyDirective_def applyUIDirective_def notifyListeners_def current_def deref_def)

text \<open>
  C2, as the code has it. Nothing cancels the timer of
  \<open>updateMediaUploadStatus('completed')\<close>: after a \<open>reset\<close> or a \<open>show-upload\<close> it is still
  pending, and when it fires it sets the upload hidden and idle and calls every listener
  with the resulting state. After \<open>reset\<close> the state reads as \<open>initialState\<close> before and
  after the timer fires. After \<open>show-upload\<close> the upload is visible until the timer fires
  and hidden afterwards, its other fields kept.
\<close>

theorem auto_hide_timer_is_not_cancelled:
  assumes "action d = ShowUpload"
  shows "0 < timers (reset (updateMediaUploadStatus m Completed)) \<and>
         current (reset (updateMediaUploadStatus m Completed)) = initialState \<and>
         current (fireTimer (reset (updateMediaUploadStatus m Completed))) = initialState \<and>
         notified (fireTimer (reset (updateMediaUploadStatus m Completed))) =
           notified (reset (updateMediaUploadStatus m Completed)) @
           map (\<lambda>l. (l, getState (fireTimer (reset (updateMediaUploadStatus m Completed)))))
             (listeners (reset (updateMediaUploadStatus m Completed))) \<and>
         0 < timers (applyDirective (updateMediaUploadStatus m Completed) d) \<and>
         m_visible (mediaUpload (current (applyDirective (updateMediaUploadStatus m Completed) d))) \<and>
         current (fireTimer (applyDirective (updateMediaUploadStatus m Completed) d)) =
           (current (applyDirective (updateMediaUploadStatus m Completed) d))
             \<lparr>mediaUpload :=
                (mediaUpload (current (applyDirective (updateMediaUploadStatus m Completed) d)))
                  \<lparr>m_visible := False, m_status := Idle\<rparr>\<rparr> \<and>
         notified (fireTimer (applyDirective (updateMediaUploadStatus m Completed) d)) =
           notified (applyDirective (updateMediaUploadStatus m Completed) d) @
           map (\<lambda>l. (l, getState (fireTimer (applyDirective (updateMediaUploadStatus m Completed) d))))
             (listeners (applyDirective (updateMediaUploadStatus m Completed) d))"
proof -
  let ?m1 = "updateMediaUploadStatus m Completed"
  have t1: "0 < timers (reset ?m1)" "0 < timers (applyDirective ?m1 d)"
    by (simp_all add: timers_reset timers_applyDirective timers_updateMediaUploadStatus)
  have "current (fireTimer (reset ?m1)) = initialState"
    using current_fireTimer [OF t1(1)] by (simp add: current_reset) (simp add: initialState_def)
  moreover have "m_visible (mediaUpload (current (applyDirective ?m1 d)))"
    using assms by (simp add: current_show_upload)
  ultimately show ?thesis
    using t1 current_fireTimer [OF t1(2)] notified_fireTimer [OF t1(1)] notified_fireTimer [OF t1(2)]
    by (simp add: current_reset)
qed

theorem auto_hide_timer_is_not_cancelled_witness:
  "current (fireTimer (reset upload_done)) = initialState \<and>
   mediaUpload (current (fireTimer (applyDirective upload_done (directive ShowUpload no_props)))) =
     \<lparr>m_visible = False, m_status = Idle, m_acceptedTypes = Some [''image/*''],
      m_multiple = Some False, m_label = None\<rparr> \<and>
   map fst (drop (length (notified (applyDirective upload_done (directive ShowUpload no_props))))
              (notified (fireTimer (applyDirective upload_done (directive ShowUpload no_props))))) =
     [1, 2]"
  using auto_hide_timer_is_not_cancelled [of "directive ShowUpload no_props" watched]
  by (simp add: upload_done_def current_show_upload directive_def no_props_def props_get_def
      nullish_def comp_def)
     (simp add: applyDirective_def updateMediaUploadStatus_def notifyListeners_def split_beta
        Let_def manager_defs)

text \<open>
  C2 as stated fails: an upload completes, a new \<open>show-upload\<close> arrives, the timer
  is still pending; when it fires, the upload that was visible is hidden.
\<close>

theorem stale_timer_hides_fresh_upload:
  "timers (applyDirective upload_done (directive ShowUpload no_props)) = 1 \<and>
   m_visible (mediaUpload (current (applyDirective upload_done (directive ShowUpload no_props)))) = True \<and>
   m_visible (mediaUpload (current (fireTimer (applyDirective upload_done (directive ShowUpload no_props))))) = False \<and>
   current (fireTimer (applyDirective upload_done (directive ShowUpload no_props)))
     \<noteq> current (applyDirective upload_done (directive ShowUpload no_props))"
  by (simp add: upload_done_def updateMediaUploadStatus_def fireTimer_def autoHide_def
      directive_defs notifyListeners_def current_def deref_def Let_def)
     (simp add: manager_defs)

subsection \<open>\<open>update-button\<close>\<close>

lemma get_button_own:
  "map_of (buttons (current m)) k = Some b \<Longrightarrow> get_button (heap m) (state m) k = Some b"
  by (simp add: get_button_def current_def deref_def)

lemma set_button_own:
  "map_of (cells h (buttons s)) k = Some b \<Longrightarrow>
   set_button s k v h = h\<lparr>cells := (cells h)(buttons s := AList.update k v (cells h (buttons s)))\<rparr>"
  by (auto simp: set_button_def put_prop_own dest: map_of_SomeD intro: rev_image_eqI)

lemma applyUIDirective_update:
  assumes "action d = UpdateButton" "props d = Some p" "p_buttonId p = Some k" "k \<noteq> []"
    and "get_button h s k = Some b"
  shows "applyUIDirective h s d =
           (set_button s k
              \<lparr>b_visible = b_visible b,
               b_enabled = (case p_enabled p of Some e \<Rightarrow> Some e | None \<Rightarrow> b_enabled b),
               b_label = (if truthy (p_buttonLabel p) then p_buttonLabel p else b_label b),
               b_action = (if truthy (p_action p) then p_action p else b_action b),
               b_style = (case p_style p of Some st \<Rightarrow> Some st | None \<Rightarrow> b_style b),
               b_chars = b_chars b\<rparr> h, s)"
  using assms by (simp add: applyUIDirective_def)

text \<open>
  C3, as the code has it. For a non-empty \<open>buttonId\<close> that is a key of \<open>buttons\<close>,
  \<open>update-button\<close> takes \<open>enabled\<close> and \<open>style\<close> from the props when they are present, and
  \<open>buttonLabel\<close> (into \<open>label\<close>) and \<open>action\<close> when they are present and not the empty
  string; every other property of the button, every other button, the keys of \<open>buttons\<close>
  and their order, the content and the upload stay as they were.
\<close>

theorem update_button_merges_nonempty_fields:
  assumes "action d = UpdateButton" "props d = Some p" "p_buttonId p = Some k" "k \<noteq> []"
    and "map_of (buttons (current m)) k = Some b"
  shows "map_of (buttons (current (applyDirective m d))) k =
           Some \<lparr>b_visible = b_visible b,
                 b_enabled = (case p_enabled p of Some e \<Rightarrow> Some e | None \<Rightarrow> b_enabled b),
                 b_label = (case p_buttonLabel p of
                              Some l \<Rightarrow> if l = [] then b_label b else Some l
                            | None \<Rightarrow> b_label b),
                 b_action = (case p_action p of
                               Some a \<Rightarrow> if a = [] then b_action b else Some a
                             | None \<Rightarrow> b_action b),
                 b_style = (case p_style p of Some st \<Rightarrow> Some st | None \<Rightarrow> b_style b),
                 b_chars = b_chars b\<rparr> \<and>
         (\<forall>k'. k' \<noteq> k \<longrightarrow>
            map_of (buttons (current (applyDirective m d))) k' = map_of (buttons (current m)) k') \<and>
         map fst (buttons (current (applyDirective m d))) = map fst (buttons (current m)) \<and>
         content (current (applyDirective m d)) = content (current m) \<and>
         mediaUpload (current (applyDirective m d)) = mediaUpload (current m)"
proof -
  have label: "(if truthy x then x else y) =
               (case x of Some l \<Rightarrow> if l = [] then y else Some l | None \<Rightarrow> y)"
    for x y :: "string option"
    by (cases x) simp_all
  from assms(5) have own: "map_of (cells (heap m) (buttons (state m))) k = Some b"
    by (simp add: current_def deref_def)
  show ?thesis
    unfolding applyDirective_def applyUIDirective_update [OF assms(1-4) get_button_own [OF assms(5)]]
    by (simp add: notifyListeners_def current_def deref_def label set_button_own [OF own]
        update_conv' keys_update_own [OF own])
qed

text \<open>
  The instance of the claim: \<open>show-button\<close> for \<open>confirm\<close>, then \<open>update-button\<close> with
  \<open>enabled: false\<close>, changes \<open>enabled\<close> only.
\<close>

theorem update_button_merges_nonempty_fields_witness:
  "map_of (buttons (current with_confirm)) ''confirm'' =
     Some \<lparr>b_visible = Some True, b_enabled = Some True, b_label = Some ''OK'',
           b_action = Some ''go'', b_style = Some Primary, b_chars = []\<rparr> \<and>
   map_of (buttons (current (applyDirective with_confirm disable_confirm))) ''confirm'' =
     Some \<lparr>b_visible = Some True, b_enabled = Some False, b_label = Some ''OK'',
           b_action = Some ''go'', b_style = Some Primary, b_chars = []\<rparr>"
  using update_button_merges_nonempty_fields
          [of disable_confirm "(button_props ''confirm'')\<lparr>p_enabled := Some False\<rparr>" "''confirm''"
              with_confirm
              "\<lparr>b_visible = Some True, b_enabled = Some True, b_label = Some ''OK'',
                b_action = Some ''go'', b_style = Some Primary, b_chars = []\<rparr>"]
  by (simp add: disable_confirm_def directive_def button_props_def no_props_def with_confirm_eq
      current_def deref_def)

text \<open>
  C3 as stated fails: \<open>buttonLabel: ''\<close> is present in the props of
  \<open>blank_confirm\<close>, and the label of the button stays \<open>OK\<close>.
\<close>

theorem update_button_skips_empty_label:
  "props blank_confirm = Some ((button_props ''confirm'')\<lparr>p_buttonLabel := Some []\<rparr>) \<and>
   b_label (the (map_of (buttons (current with_confirm)) ''confirm'')) = Some ''OK'' \<and>
   b_label (the (map_of (buttons (current (applyDirective with_confirm blank_confirm))) ''confirm'')) =
     Some ''OK'' \<and>
   b_label (the (map_of (buttons (current (applyDirective with_confirm blank_confirm))) ''confirm'')) \<noteq>
     Some []"
  by (simp add: blank_confirm_def with_confirm_eq directive_defs button_props_def
      notifyListeners_def current_def deref_def)

subsection \<open>Paths\<close>

lemma split_from_Nil: "split_from sep acc [] = [rev acc]"
  by (simp add: split_from.simps)

lemma split_from_Cons:
  "split_from sep acc (c # cs) =
     (if sep \<noteq> [] \<and> take (length sep) (c # cs) = sep
      then rev acc # split_from sep [] (drop (length sep) (c # cs))
      else split_from sep (c # acc) cs)"
  by (subst split_from.simps) simp

lemma split_from_nonempty: "split_from sep acc s \<noteq> []"
  by (induction sep acc s rule: split_from.induct) (subst split_from.simps, simp)

lemma split_from_short:
  "length s < length sep \<Longrightarrow> split_from sep acc s = [rev acc @ s]"
proof (induction s arbitrary: acc)
  case Nil
  then show ?case by (simp add: split_from_Nil)
next
  case (Cons c cs)
  then show ?case by (auto simp: split_from_Cons)
qed

lemma split_from_single:
  "split_from sep acc s = [p] \<Longrightarrow> p = rev acc @ s"
proof (induction sep acc s rule: split_from.induct)
  case (1 sep acc s)
  show ?case
  proof (cases s)
    case Nil
    with 1(3) show ?thesis by (simp add: split_from_Nil)
  next
    case (Cons c cs)
    show ?thesis
    proof (cases "sep \<noteq> [] \<and> take (length sep) s = sep")
      case True
      with 1(3) Cons show ?thesis
        using split_from_nonempty [of sep "[]" "drop (length sep) s"]
        by (simp add: split_from_Cons)
    next
      case False
      with 1(3) Cons have "split_from sep (c # acc) cs = [p]"
        by (auto simp: split_from_Cons split: if_splits)
      with 1(2) [of ] False Cons show ?thesis by simp
    qed
  qed
qed

lemma split_from_append:
  "sep \<noteq> [] \<Longrightarrow> 2 \<le> length (split_from sep acc a) \<Longrightarrow>
   split_from sep acc (a @ b) =
     butlast (split_from sep acc a) @ split_from sep [] (last (split_from sep acc a) @ b)"
proof (induction sep acc a rule: split_from.induct)
  case (1 sep acc a)
  show ?case
  proof (cases a)
    case Nil
    with 1(4) show ?thesis by (simp add: split_from_Nil)
  next
    case (Cons c cs)
    show ?thesis
    proof (cases "take (length sep) a = sep")
      case True
      have "length (take (length sep) a) = length sep"
        by (simp only: True)
      then have len: "length sep \<le> length a"
        by simp
      have ab: "take (length sep) (a @ b) = sep" using True len by simp
      have ne: "a \<noteq> []" "a @ b \<noteq> []" using Cons by simp_all
      have Lab: "split_from sep acc (a @ b) = rev acc # split_from sep [] (drop (length sep) a @ b)"
        using ab len 1(3) ne by (subst split_from.simps) simp
      have La: "split_from sep acc a = rev acc # split_from sep [] (drop (length sep) a)"
        using True 1(3) ne by (subst split_from.simps) simp
      show ?thesis
      proof (cases "2 \<le> length (split_from sep [] (drop (length sep) a))")
        case True
        from 1(1) [OF _ _ 1(3) True] \<open>take (length sep) a = sep\<close> 1(3) Cons
        have "split_from sep [] (drop (length sep) a @ b) =
              butlast (split_from sep [] (drop (length sep) a)) @
              split_from sep [] (last (split_from sep [] (drop (length sep) a)) @ b)"
          by simp
        with True show ?thesis
          using split_from_nonempty [of sep "[]" "drop (length sep) a"]
          by (simp add: Lab La)
      next
        case False
        then obtain q where q: "split_from sep [] (drop (length sep) a) = [q]"
          using split_from_nonempty [of sep "[]" "drop (length sep) a"]
          by (cases "split_from sep [] (drop (length sep) a)") (auto simp: Suc_le_eq)
        from split_from_single [OF q] have "q = drop (length sep) a" by simp
        then show ?thesis by (simp add: Lab La q)
      qed
    next
      case False
      have La: "split_from sep acc a = split_from sep (c # acc) cs"
        using False Cons by (simp add: split_from_Cons)
      have len: "length sep \<le> length a"
      proof (rule ccontr)
        assume "\<not> length sep \<le> length a"
        then have "split_from sep acc a = [rev acc @ a]" by (simp add: split_from_short)
        with 1(4) show False by simp
      qed
      then have "take (length sep) (a @ b) \<noteq> sep" using False by simp
      then have Lab: "split_from sep acc (a @ b) = split_from sep (c # acc) (cs @ b)"
        using Cons by (simp add: split_from_Cons)
      from 1(2) [OF _ _ 1(3)] False Cons 1(4) La
      have "split_from sep (c # acc) (cs @ b) =
            butlast (split_from sep (c # acc) cs) @
            split_from sep [] (last (split_from sep (c # acc) cs) @ b)"
        by simp
      then show ?thesis by (simp add: Lab La)
    qed
  qed
qed

lemma split_append:
  "sep \<noteq> [] \<Longrightarrow> split sep (a @ b) = butlast (split sep a) @ split sep (last (split sep a) @ b)"
proof (cases "2 \<le> length (split_from sep [] a)")
  case True
  assume "sep \<noteq> []"
  then show ?thesis using split_from_append [OF _ True, of b] by (simp add: split_def)
next
  case False
  assume sep: "sep \<noteq> []"
  from False obtain q where q: "split_from sep [] a = [q]"
    using split_from_nonempty [of sep "[]" a]
    by (cases "split_from sep [] a") (auto simp: Suc_le_eq)
  from split_from_single [OF q] show ?thesis using sep by (simp add: split_def q)
qed

lemma segments_ui_prefix: "segments (''/ui/'' @ rest) = ''ui'' # segments rest"
  by (simp add: segments_def split_def split_from_Cons)

lemma segments_slash_prefix: "segments (''/'' @ rest) = segments rest"
  by (simp add: segments_def split_def split_from_Cons)

lemma pathParts_ui_prefix: "pathParts (''/ui/'' @ rest) = segments rest"
  using segments_ui_prefix [of rest] by (simp add: pathParts_def)

lemma pathParts_ui_prefix_same:
  "segments rest = [] \<or> hd (segments rest) \<noteq> ''ui'' \<Longrightarrow>
   pathParts (''/ui/'' @ rest) = pathParts (''/'' @ rest)"
  using segments_ui_prefix [of rest] segments_slash_prefix [of rest]
  by (auto simp: pathParts_def)

lemma pathParts_mediaUpload_visible:
  "pathParts ''/ui/mediaUpload/visible'' = [''mediaUpload'', ''visible'']"
  "pathParts ''/mediaUpload/visible'' = [''mediaUpload'', ''visible'']"
  by (simp_all add: pathParts_def segments_def split_def split_from_Cons split_from_Nil)


subsection \<open>A patch depends on its path through \<open>pathParts\<close> only\<close>

text \<open>Up to the text of the warning, which quotes the path as written.\<close>

lemma and_then_fst_cong:
  "(\<And>v. map_sum id fst (F v) = map_sum id fst (G v)) \<Longrightarrow>
   map_sum id fst (and_then x F) = map_sum id fst (and_then x G)"
  by (cases x) (simp_all add: and_then_def)

lemma navigate_fst_cong:
  "(\<And>c. map_sum id fst (f c) = map_sum id fst (g c)) \<Longrightarrow>
   map_sum id fst (navigate ks f cur) = map_sum id fst (navigate ks g cur)"
proof (induction ks arbitrary: cur)
  case Nil
  then show ?case by simp
next
  case (Cons k ks)
  have step:
    "map_sum id fst
       (and_then (navigate ks f child) (\<lambda>(child', r). Inr (put_back c1 k child', r))) =
     map_sum id fst
       (and_then (navigate ks g child) (\<lambda>(child', r). Inr (put_back c1 k child', r)))"
    for child c1
    using Cons.IH [OF Cons.prems, of child]
    by (cases "navigate ks f child"; cases "navigate ks g child") (auto simp: and_then_def)
  show ?case
    apply (simp only: navigate.simps)
    apply (intro and_then_fst_cong)
    apply (rule step)
    done
qed

lemma apply_op_fst:
  "op p = op q \<Longrightarrow> patch_value p = patch_value q \<Longrightarrow>
   map_sum id fst (apply_op p key c) = map_sum id fst (apply_op q key c)"
  by (cases "op q") (simp_all add: apply_op_def and_then_def split: sum.splits)

lemma apply_patch_fst:
  "pathParts (path p) = pathParts (path q) \<Longrightarrow> op p = op q \<Longrightarrow>
   patch_value p = patch_value q \<Longrightarrow>
   map_sum id fst (apply_patch root p) = map_sum id fst (apply_patch root q)"
  by (simp add: apply_patch_def Let_def) (rule navigate_fst_cong, rule apply_op_fst)

lemma apply_patches_fst_ws:
  "map_sum id fst (apply_patches ps (root, ws)) = map_sum id fst (apply_patches ps (root, ws'))"
proof (induction ps arbitrary: root ws ws')
  case Nil
  then show ?case by simp
next
  case (Cons p ps)
  show ?case
  proof (cases "apply_patch root p")
    case (Inl e)
    then show ?thesis by (simp add: and_then_def)
  next
    case (Inr rb)
    obtain r b where rb: "rb = (r, b)" by (cases rb)
    show ?thesis
      using Cons.IH [of r "ws @ b" "ws' @ b"] by (simp add: and_then_def Inr rb)
  qed
qed

lemma apply_patches_append:
  "apply_patches (ps @ qs) st = and_then (apply_patches ps st) (apply_patches qs)"
proof (induction ps arbitrary: st)
  case Nil
  then show ?case by (simp add: and_then_def)
next
  case (Cons p ps)
  obtain root ws where st: "st = (root, ws)" by (cases st)
  show ?case
    by (cases "apply_patch root p") (auto simp: st and_then_def Cons.IH)
qed

lemma apply_patches_fst_cong:
  assumes "pathParts (path p) = pathParts (path q)" "op p = op q" "patch_value p = patch_value q"
  shows "map_sum id fst (apply_patches (pre @ p # post) st) =
         map_sum id fst (apply_patches (pre @ q # post) st)"
proof (cases "apply_patches pre st")
  case (Inl e)
  then show ?thesis by (simp add: apply_patches_append and_then_def)
next
  case (Inr st1)
  obtain r1 w1 where st1: "st1 = (r1, w1)" by (cases st1)
  show ?thesis
    using apply_patch_fst [OF assms, of r1]
    by (cases "apply_patch r1 p"; cases "apply_patch r1 q")
       (auto simp: apply_patches_append Inr st1 and_then_def intro: apply_patches_fst_ws)
qed

lemma set_state_warnings:
  "outcome_map (\<lambda>m'. m'\<lparr>warnings := []\<rparr>) (set_state root (m\<lparr>warnings := w\<rparr>)) =
   outcome_map (\<lambda>m'. m'\<lparr>warnings := []\<rparr>) (set_state root m)"
  by (simp add: set_state_def notifyListeners_def split_beta split: option.splits)

lemma applyDelta_fst_cong:
  assumes "map_sum id fst (applyStateDelta (current m) d1) =
           map_sum id fst (applyStateDelta (current m) d2)"
  shows "map_sum id (outcome_map (\<lambda>m'. m'\<lparr>warnings := []\<rparr>)) (applyDelta m d1) =
         map_sum id (outcome_map (\<lambda>m'. m'\<lparr>warnings := []\<rparr>)) (applyDelta m d2)"
  using assms
  by (cases "applyStateDelta (current m) d1"; cases "applyStateDelta (current m) d2")
     (auto simp: applyDelta_def and_then_def set_state_warnings)

subsection \<open>The \<open>ui\<close> prefix of a path\<close>

text \<open>
  C5, as the code has it. A delta with the path \<open>/ui/mediaUpload/visible\<close> and one with
  \<open>/mediaUpload/visible\<close>, the same operation and value, at the same place of any batch:
  \<open>applyStateDelta\<close> throws for both or returns the same tree for both, whatever the
  operation does to the tree, and \<open>applyDelta\<close> leaves the manager the same (the console
  output apart: the warning of a failed test quotes the path as written). In general
  \<open>pathParts\<close> drops one leading \<open>ui\<close>: a path \<open>/ui/rest\<close> acts as \<open>/rest\<close> does when the
  segments of \<open>rest\<close> do not themselves begin with \<open>ui\<close>.
\<close>

theorem ui_prefix_is_stripped_once:
  "map_sum id fst
     (applyStateDelta s \<lparr>patch = pre @ patch_at oper ''/ui/mediaUpload/visible'' v # post\<rparr>) =
   map_sum id fst
     (applyStateDelta s \<lparr>patch = pre @ patch_at oper ''/mediaUpload/visible'' v # post\<rparr>) \<and>
   map_sum id (outcome_map (\<lambda>m'. m'\<lparr>warnings := []\<rparr>))
     (applyDelta m \<lparr>patch = pre @ patch_at oper ''/ui/mediaUpload/visible'' v # post\<rparr>) =
   map_sum id (outcome_map (\<lambda>m'. m'\<lparr>warnings := []\<rparr>))
     (applyDelta m \<lparr>patch = pre @ patch_at oper ''/mediaUpload/visible'' v # post\<rparr>) \<and>
   (segments rest = [] \<or> hd (segments rest) \<noteq> ''ui'' \<longrightarrow>
      pathParts (''/ui/'' @ rest) = pathParts (''/'' @ rest) \<and>
      map_sum id fst
        (applyStateDelta s \<lparr>patch = pre @ patch_at oper (''/ui/'' @ rest) v # post\<rparr>) =
      map_sum id fst
        (applyStateDelta s \<lparr>patch = pre @ patch_at oper (''/'' @ rest) v # post\<rparr>) \<and>
      map_sum id (outcome_map (\<lambda>m'. m'\<lparr>warnings := []\<rparr>))
        (applyDelta m \<lparr>patch = pre @ patch_at oper (''/ui/'' @ rest) v # post\<rparr>) =
      map_sum id (outcome_map (\<lambda>m'. m'\<lparr>warnings := []\<rparr>))
        (applyDelta m \<lparr>patch = pre @ patch_at oper (''/'' @ rest) v # post\<rparr>))"
proof -
  have tree: "map_sum id fst (applyStateDelta s' \<lparr>patch = pre @ patch_at oper p1 v # post\<rparr>) =
              map_sum id fst (applyStateDelta s' \<lparr>patch = pre @ patch_at oper p2 v # post\<rparr>)"
    if "pathParts p1 = pathParts p2" for p1 p2 s'
    by (simp add: applyStateDelta_def apply_patches_fst_cong patch_at_def that)
  have same: "map_sum id (outcome_map (\<lambda>m'. m'\<lparr>warnings := []\<rparr>))
                (applyDelta m \<lparr>patch = pre @ patch_at oper p1 v # post\<rparr>) =
              map_sum id (outcome_map (\<lambda>m'. m'\<lparr>warnings := []\<rparr>))
                (applyDelta m \<lparr>patch = pre @ patch_at oper p2 v # post\<rparr>)"
    if "pathParts p1 = pathParts p2" for p1 p2
    by (rule applyDelta_fst_cong) (rule tree [OF that])
  have "pathParts ''/ui/mediaUpload/visible'' = pathParts ''/mediaUpload/visible''"
    by (simp only: pathParts_mediaUpload_visible)
  then show ?thesis
    using same tree [of _ _ s] pathParts_ui_prefix_same [of rest] by blast
qed

lemma current_watched: "current watched = initialState" "warnings watched = []"
  "listeners watched = [1, 2]"
  by (simp_all add: manager_defs)

lemma applyDelta_held:
  assumes "applyStateDelta (current m) delta = Inr (state_json s, ws)"
  shows "\<exists>m'. applyDelta m delta = Inr (Held m') \<and> current m' = s \<and>
              warnings m' = warnings m @ ws \<and>
              notified m' = notified m @ map (\<lambda>l. (l, getState m')) (listeners m)"
  using assms
  by (simp add: applyDelta_def and_then_def set_state_roundtrip notifyListeners_def current_def
      getState_def deref_new_state)

lemma held_without_warnings:
  assumes "map_sum id (outcome_map (\<lambda>m'. m'\<lparr>warnings := []\<rparr>)) x =
           map_sum id (outcome_map (\<lambda>m'. m'\<lparr>warnings := []\<rparr>)) (Inr (Held m1))"
  shows "\<exists>m'. x = Inr (Held m') \<and> current m' = current m1"
proof -
  have eq: "current a = current b" if "a\<lparr>warnings := []\<rparr> = b\<lparr>warnings := []\<rparr>"
    for a b :: UIManager
    using arg_cong [OF that, of state] arg_cong [OF that, of heap] by (simp add: current_def)
  from assms obtain o1 where x: "x = Inr o1"
    and o1: "outcome_map (\<lambda>m'. m'\<lparr>warnings := []\<rparr>) o1 = Held (m1\<lparr>warnings := []\<rparr>)"
    by (cases x) auto
  from o1 obtain m' where "o1 = Held m'" "m'\<lparr>warnings := []\<rparr> = m1\<lparr>warnings := []\<rparr>"
    by (cases o1) auto
  with x eq show ?thesis by blast
qed

lemma delta_samples:
  "segments ''mediaUpload/visible'' = [''mediaUpload'', ''visible'']"
  "applyStateDelta initialState \<lparr>patch = [patch_at Remove ''/mediaUpload/visible'' JUndefined]\<rparr> =
     Inr (JObj
           [(''content'', JObj [(''visible'', JBool False), (''text'', JStr [])]),
            (''mediaUpload'',
             JObj [(''status'', JStr ''idle''), (''acceptedTypes'', JArr [JStr ''image/*'']),
                   (''multiple'', JBool False)]),
            (''buttons'', JObj [])], [])"
  "applyStateDelta initialState \<lparr>patch = [patch_at Replace ''/mediaUpload/visible'' (JBool True)]\<rparr> =
     Inr (state_json shown_upload, [])"
  "applyStateDelta initialState \<lparr>patch = [patch_at Replace ''/ui/content/text'' (JStr ''X'')]\<rparr> =
     Inr (state_json (initialState\<lparr>content := \<lparr>c_text = Some ''X'', c_visible = False\<rparr>\<rparr>), [])"
  "pathParts ''/ui/ui/content/text'' = [''ui'', ''content'', ''text'']"
  "pathParts ''/ui/content/text'' = [''content'', ''text'']"
  by code_simp+

text \<open>
  Run on a new manager: \<open>remove\<close> at \<open>/ui/mediaUpload/visible\<close> leaves the tree without
  that property, and \<open>replace\<close> with \<open>true\<close> leaves the manager with the upload shown.
\<close>

theorem ui_prefix_is_stripped_once_witness:
  "segments ''mediaUpload/visible'' = [''mediaUpload'', ''visible''] \<and>
   pathParts (''/ui/'' @ ''mediaUpload/visible'') = pathParts (''/'' @ ''mediaUpload/visible'') \<and>
   map_sum id fst
     (applyStateDelta initialState \<lparr>patch = [patch_at Remove ''/ui/mediaUpload/visible'' JUndefined]\<rparr>) =
   Inr (JObj
         [(''content'', JObj [(''visible'', JBool False), (''text'', JStr [])]),
          (''mediaUpload'',
           JObj [(''status'', JStr ''idle''), (''acceptedTypes'', JArr [JStr ''image/*'']),
                 (''multiple'', JBool False)]),
          (''buttons'', JObj [])]) \<and>
   (\<exists>m'. applyDelta watched \<lparr>patch = [patch_at Replace ''/ui/mediaUpload/visible'' (JBool True)]\<rparr> =
            Inr (Held m') \<and> current m' = shown_upload)"
proof -
  from applyDelta_held [of watched _ shown_upload "[]"] delta_samples(3) obtain m1 where
    m1: "applyDelta watched \<lparr>patch = [patch_at Replace ''/mediaUpload/visible'' (JBool True)]\<rparr> =
           Inr (Held m1)" "current m1 = shown_upload"
    by (auto simp: current_watched)
  have "map_sum id (outcome_map (\<lambda>m'. m'\<lparr>warnings := []\<rparr>))
          (applyDelta watched \<lparr>patch = [patch_at Replace ''/ui/mediaUpload/visible'' (JBool True)]\<rparr>) =
        map_sum id (outcome_map (\<lambda>m'. m'\<lparr>warnings := []\<rparr>)) (Inr (Held m1))"
    using ui_prefix_is_stripped_once
            [of initialState "[]" Replace "JBool True" "[]" watched "''mediaUpload/visible''"]
    by (simp add: m1(1))
  from held_without_warnings [OF this] m1(2)
  have "\<exists>m'. applyDelta watched \<lparr>patch = [patch_at Replace ''/ui/mediaUpload/visible'' (JBool True)]\<rparr> =
            Inr (Held m') \<and> current m' = shown_upload"
    by simp
  then show ?thesis
    using ui_prefix_is_stripped_once
            [of initialState "[]" Remove JUndefined "[]" watched "''mediaUpload/visible''"]
          delta_samples(1,2)
    by simp
qed

text \<open>
  C5 as stated fails where the rest of the path begins with \<open>ui\<close> again:
  \<open>/ui/ui/content/text\<close> addresses \<open>ui.content.text\<close> (and creates it), while the same path
  without the prefix, \<open>/ui/content/text\<close>, addresses \<open>content.text\<close>.
\<close>

theorem ui_prefix_twice_differs:
  "pathParts ''/ui/ui/content/text'' = [''ui'', ''content'', ''text''] \<and>
   pathParts ''/ui/content/text'' = [''content'', ''text''] \<and>
   applyStateDelta initialState \<lparr>patch = [patch_at Replace ''/ui/ui/content/text'' (JStr ''X'')]\<rparr> =
     Inr (JObj
           [(''content'', JObj [(''visible'', JBool False), (''text'', JStr [])]),
            (''mediaUpload'',
             JObj [(''visible'', JBool False), (''status'', JStr ''idle''),
                   (''acceptedTypes'', JArr [JStr ''image/*'']), (''multiple'', JBool False)]),
            (''buttons'', JObj []),
            (''ui'', JObj [(''content'', JObj [(''text'', JStr ''X'')])])], []) \<and>
   applyStateDelta initialState \<lparr>patch = [patch_at Replace ''/ui/content/text'' (JStr ''X'')]\<rparr> =
     Inr (JObj
           [(''content'', JObj [(''visible'', JBool False), (''text'', JStr ''X'')]),
            (''mediaUpload'',
             JObj [(''visible'', JBool False), (''status'', JStr ''idle''),
                   (''acceptedTypes'', JArr [JStr ''image/*'']), (''multiple'', JBool False)]),
            (''buttons'', JObj [])], []) \<and>
   applyDelta watched \<lparr>patch = [patch_at Replace ''/ui/ui/content/text'' (JStr ''X'')]\<rparr> =
     Inr (Foreign state_with_ui watched) \<and>
   (\<exists>m'. applyDelta watched \<lparr>patch = [patch_at Replace ''/ui/content/text'' (JStr ''X'')]\<rparr> =
            Inr (Held m') \<and>
          current m' = initialState\<lparr>content := \<lparr>c_text = Some ''X'', c_visible = False\<rparr>\<rparr>)"
proof -
  have trees:
    "applyStateDelta initialState \<lparr>patch = [patch_at Replace ''/ui/ui/content/text'' (JStr ''X'')]\<rparr> =
     Inr (JObj
           [(''content'', JObj [(''visible'', JBool False), (''text'', JStr [])]),
            (''mediaUpload'',
             JObj [(''visible'', JBool False), (''status'', JStr ''idle''),
                   (''acceptedTypes'', JArr [JStr ''image/*'']), (''multiple'', JBool False)]),
            (''buttons'', JObj []),
            (''ui'', JObj [(''content'', JObj [(''text'', JStr ''X'')])])], [])"
    "applyStateDelta initialState \<lparr>patch = [patch_at Replace ''/ui/content/text'' (JStr ''X'')]\<rparr> =
     Inr (JObj
           [(''content'', JObj [(''visible'', JBool False), (''text'', JStr ''X'')]),
            (''mediaUpload'',
             JObj [(''visible'', JBool False), (''status'', JStr ''idle''),
                   (''acceptedTypes'', JArr [JStr ''image/*'']), (''multiple'', JBool False)]),
            (''buttons'', JObj [])], [])"
    by code_simp+
  have "applyDelta watched \<lparr>patch = [patch_at Replace ''/ui/ui/content/text'' (JStr ''X'')]\<rparr> =
        Inr (Foreign state_with_ui watched)"
    by (simp add: applyDelta_def current_watched state_with_ui_facts(5) and_then_def set_state_def
        state_with_ui_facts(1))
  moreover have "\<exists>m'. applyDelta watched \<lparr>patch = [patch_at Replace ''/ui/content/text'' (JStr ''X'')]\<rparr> =
            Inr (Held m') \<and>
          current m' = initialState\<lparr>content := \<lparr>c_text = Some ''X'', c_visible = False\<rparr>\<rparr>"
    using applyDelta_held [of watched _ _ "[]"] delta_samples(4) by (auto simp: current_watched)
  ultimately show ?thesis
    using trees delta_samples(5,6) by simp
qed

subsection \<open>A failing \<open>test\<close>\<close>








subsection \<open>The stream\<close>

text \<open>The lines of the stream do not depend on how the text is cut into chunks.\<close>

lemma forward_buffer:
  "forward msg (t\<lparr>buffer := b\<rparr>) = flow_map (\<lambda>t. t\<lparr>buffer := b\<rparr>) (forward msg t)"
  by (simp add: forward_def split: sum.splits Outcome.splits)

lemma handle_frame_buffer:
  "handle_frame fr (t\<lparr>buffer := b\<rparr>) = flow_map (\<lambda>t. t\<lparr>buffer := b\<rparr>) (handle_frame fr t)"
  by (induction fr t rule: handle_frame.induct) (simp_all add: forward_buffer)

lemma process_lines_buffer:
  "process_lines P ls (t\<lparr>buffer := b\<rparr>) = flow_map (\<lambda>t. t\<lparr>buffer := b\<rparr>) (process_lines P ls t)"
proof (induction ls arbitrary: t)
  case Nil
  then show ?case by simp
next
  case (Cons l ls)
  show ?case
  proof (cases "parseSSEData P l")
    case None
    then show ?thesis by (simp add: Cons.IH)
  next
    case (Some fr)
    then show ?thesis
      by (cases "handle_frame fr t") (simp_all add: handle_frame_buffer Cons.IH)
  qed
qed

lemma process_lines_append:
  "process_lines P (xs @ ys) t =
     (case process_lines P xs t of Next t' \<Rightarrow> process_lines P ys t' | other \<Rightarrow> other)"
proof (induction xs arbitrary: t)
  case Nil
  then show ?case by simp
next
  case (Cons l ls)
  show ?case
  proof (cases "parseSSEData P l")
    case None
    then show ?thesis by (simp add: Cons.IH)
  next
    case (Some fr)
    then show ?thesis
      by (cases "handle_frame fr t") (simp_all add: Cons.IH)
  qed
qed

lemma split_nonempty: "split [CHR 0x0A, CHR 0x0A] s \<noteq> []"
  by (simp add: split_def split_from_nonempty)

lemma read_loop_merge:
  assumes "process_lines P (butlast (split [CHR 0x0A, CHR 0x0A] (buffer t @ c1))) t = Next t2"
  shows "read_loop P (c1 # c2 # cs) t = read_loop P ((c1 @ c2) # cs) t"
proof -
  let ?nn = "[CHR 0x0A, CHR 0x0A]"
  let ?l1 = "split ?nn (buffer t @ c1)"
  let ?l2 = "split ?nn (last ?l1 @ c2)"
  have l12: "split ?nn (buffer t @ c1 @ c2) = butlast ?l1 @ ?l2"
    using split_append [of ?nn "buffer t @ c1" c2] by simp
  have ne: "?l1 \<noteq> []" "?l2 \<noteq> []" by (rule split_nonempty)+
  have left: "read_loop P (c1 # c2 # cs) t =
     (case process_lines P (butlast ?l2) (t2\<lparr>buffer := last ?l2\<rparr>) of
        Next t3 \<Rightarrow> read_loop P cs t3 | Break t3 \<Rightarrow> Next t3 | other \<Rightarrow> other)"
    using ne by (simp add: Let_def process_lines_buffer assms)
  have right: "read_loop P ((c1 @ c2) # cs) t =
     (case process_lines P (butlast ?l2) (t2\<lparr>buffer := last ?l2\<rparr>) of
        Next t3 \<Rightarrow> read_loop P cs t3 | Break t3 \<Rightarrow> Next t3 | other \<Rightarrow> other)"
    using ne
    by (simp add: Let_def l12 butlast_append process_lines_append process_lines_buffer assms)
  from left right show ?thesis by simp
qed

lemma split_body:
  "split [CHR 0x0A, CHR 0x0A] (concat sample_frames) =
     [''data: '' @ hello_payload, ''data: '' @ upload_payload, ''data: [DONE]'', []]"
  by code_simp

lemma trim_payloads:
  "trim hello_payload = hello_payload" "trim upload_payload = upload_payload"
  "hello_payload \<noteq> ''[DONE]''" "upload_payload \<noteq> ''[DONE]''"
  "upload_payload \<noteq> hello_payload"
  by code_simp+

lemma parseSSEData_data:
  "trim s = s \<Longrightarrow> s \<noteq> ''[DONE]'' \<Longrightarrow>
   parseSSEData P (CHR ''d'' # CHR ''a'' # CHR ''t'' # CHR ''a'' # CHR '':'' # CHR '' '' # s) = P s"
  by (simp add: parseSSEData_def)

lemma parseSSEData_done: "parseSSEData P ''data: [DONE]'' = Some FDone"
  by (simp add: parseSSEData_def trim_def is_space_def)

lemma forward_show_upload:
  "forward (DirectiveMsg show_upload_images) t =
     Next (t\<lparr>manager := applyDirective (manager t) show_upload_images\<rparr>)"
  by (simp add: forward_def processMessage_def)

lemma current_show_upload_images:
  "current (applyDirective m show_upload_images) =
     (current m)\<lparr>mediaUpload :=
        \<lparr>m_visible = True, m_status = Idle, m_acceptedTypes = Some [''image/*''],
         m_multiple = Some False, m_label = None\<rparr>\<rparr>"
  by (simp add: show_upload_images_def directive_defs notifyListeners_def current_def deref_def)

lemma prefix_of_four:
  "xs @ r = [a, b, c, d] \<Longrightarrow> r \<noteq> [] \<Longrightarrow>
   xs = [] \<or> xs = [a] \<or> xs = [a, b] \<or> xs = [a, b, c] \<and> r = [d]"
  by (auto simp: append_eq_Cons_conv)

lemma split_single_empty: "split [CHR 0x0A, CHR 0x0A] s = [[]] \<Longrightarrow> s = []"
  using split_from_single [of "[CHR 0x0A, CHR 0x0A]" "[]" s "[]"] by (simp add: split_def)

lemma sample_lines:
  assumes "JSON_parse hello_payload = Some (FTextDelta ''Hello'')"
    and "JSON_parse upload_payload = Some (FMessage (DirectiveMsg show_upload_images))"
  shows "process_lines JSON_parse [] t = Next t"
    and "process_lines JSON_parse [''data: '' @ hello_payload] t =
           Next (t\<lparr>finalContent := finalContent t @ ''Hello''\<rparr>)"
    and "process_lines JSON_parse [''data: '' @ hello_payload, ''data: '' @ upload_payload] t =
           Next (t\<lparr>finalContent := finalContent t @ ''Hello'',
                   manager := applyDirective (manager t) show_upload_images\<rparr>)"
    and "process_lines JSON_parse
           [''data: '' @ hello_payload, ''data: '' @ upload_payload, ''data: [DONE]''] t =
           Break (t\<lparr>finalContent := finalContent t @ ''Hello'',
                    manager := applyDirective (manager t) show_upload_images\<rparr>)"
  by (simp_all add: parseSSEData_data parseSSEData_done trim_payloads assms forward_show_upload)

lemma read_loop_any_chunking:
  assumes "JSON_parse hello_payload = Some (FTextDelta ''Hello'')"
    and "JSON_parse upload_payload = Some (FMessage (DirectiveMsg show_upload_images))"
  shows "concat chunks = concat sample_frames \<Longrightarrow> buffer t = [] \<Longrightarrow>
         read_loop JSON_parse chunks t = read_loop JSON_parse [concat sample_frames] t"
proof (induction "length chunks" arbitrary: chunks rule: less_induct)
  case less
  let ?nn = "[CHR 0x0A, CHR 0x0A]"
  show ?case
  proof (cases chunks)
    case Nil
    with less.prems(1) have "concat sample_frames = []" by simp
    then show ?thesis by (simp add: sample_frames_def)
  next
    case (Cons c1 rest)
    show ?thesis
    proof (cases rest)
      case Nil
      with Cons less.prems(1) show ?thesis by simp
    next
      case (Cons c2 cs)
      let ?q = "concat rest"
      have body: "concat sample_frames = c1 @ ?q"
        using less.prems(1) \<open>chunks = c1 # rest\<close> by simp
      have "butlast (split ?nn c1) @ split ?nn (last (split ?nn c1) @ ?q) =
            [''data: '' @ hello_payload, ''data: '' @ upload_payload, ''data: [DONE]'', []]"
        using split_append [of ?nn c1 ?q] split_body body by simp
      from prefix_of_four [OF this split_nonempty]
      consider (go) t2 where "process_lines JSON_parse (butlast (split ?nn c1)) t = Next t2"
        | (stop) "butlast (split ?nn c1) =
                    [''data: '' @ hello_payload, ''data: '' @ upload_payload, ''data: [DONE]'']"
                 "split ?nn (last (split ?nn c1) @ ?q) = [[]]"
        using sample_lines(1-3) [OF assms, of t] by auto
      then show ?thesis
      proof cases
        case go
        have "read_loop JSON_parse chunks t = read_loop JSON_parse ((c1 @ c2) # cs) t"
          using read_loop_merge [of JSON_parse t c1 t2 c2 cs] go less.prems(2)
            \<open>chunks = c1 # rest\<close> Cons by simp
        also have "\<dots> = read_loop JSON_parse [concat sample_frames] t"
          using less.hyps [of "(c1 @ c2) # cs"] less.prems \<open>chunks = c1 # rest\<close> Cons by simp
        finally show ?thesis .
      next
        case stop
        from split_single_empty [OF stop(2)] have "?q = []" by simp
        with body have c1: "c1 = concat sample_frames" by simp
        have "split ?nn c1 \<noteq> []" by (rule split_nonempty)
        then show ?thesis
          using stop(1) sample_lines(4) [OF assms, of "t\<lparr>buffer := last (split ?nn c1)\<rparr>"]
            less.prems(2) \<open>chunks = c1 # rest\<close>
          by (simp add: Let_def c1 [symmetric])
      qed
    qed
  qed
qed

text \<open>
  C8. The body with the frames text-delta \<open>Hello\<close>, \<open>show-upload\<close> accepting \<open>image/*\<close>,
  and the sentinel, delivered in chunks cut anywhere, and read by a \<open>JSON.parse\<close> that
  reads the two payloads as these messages: the stream ends in the regular way, the
  text is \<open>Hello\<close>, and the upload of the state is visible, idle, accepts \<open>image/*\<close>
  and is not multiple; content and buttons are those of the initial state.
\<close>

theorem stream_hello_then_show_upload:
  assumes "JSON_parse hello_payload = Some (FTextDelta ''Hello'')"
    and "JSON_parse upload_payload = Some (FMessage (DirectiveMsg show_upload_images))"
    and "concat chunks = concat sample_frames"
  shows "\<exists>t. sendMessage_stream JSON_parse chunks m = Next t \<and>
             finalContent t = ''Hello'' \<and>
             mediaUpload (current (manager t)) =
               \<lparr>m_visible = True, m_status = Idle, m_acceptedTypes = Some [''image/*''],
                m_multiple = Some False, m_label = None\<rparr> \<and>
             content (current (manager t)) = content initialState \<and>
             buttons (current (manager t)) = []"
proof -
  let ?t0 = "\<lparr>manager = reset m, finalContent = [], buffer = []\<rparr>"
  have "read_loop JSON_parse chunks ?t0 = read_loop JSON_parse [concat sample_frames] ?t0"
    using read_loop_any_chunking [OF assms] by simp
  also have "\<dots> = Next \<lparr>manager = applyDirective (reset m) show_upload_images,
                         finalContent = ''Hello'', buffer = []\<rparr>"
    by (simp add: split_body parseSSEData_data parseSSEData_done trim_payloads assms(1,2)
        forward_show_upload)
  finally have "sendMessage_stream JSON_parse chunks m =
     Next \<lparr>manager = applyDirective (reset m) show_upload_images,
           finalContent = ''Hello'', buffer = []\<rparr>"
    by (simp add: sendMessage_stream_def flush_buffer_def)
  then show ?thesis
    by (simp add: current_show_upload_images current_reset initialState_def)
qed

text \<open>
  The same body cut after 20 characters (inside the first frame) and again inside the
  blank line that ends the sentinel frame.
\<close>

theorem stream_hello_then_show_upload_witness:
  "concat [take 20 (concat sample_frames), take 123 (drop 20 (concat sample_frames)),
           drop 143 (concat sample_frames)] = concat sample_frames \<and>
   (\<exists>t. sendMessage_stream sample_parse
           [take 20 (concat sample_frames), take 123 (drop 20 (concat sample_frames)),
            drop 143 (concat sample_frames)] with_confirm = Next t \<and>
        finalContent t = ''Hello'' \<and>
        mediaUpload (current (manager t)) =
          \<lparr>m_visible = True, m_status = Idle, m_acceptedTypes = Some [''image/*''],
           m_multiple = Some False, m_label = None\<rparr>)"
proof -
  have cut: "concat [take 20 (concat sample_frames), take 123 (drop 20 (concat sample_frames)),
                     drop 143 (concat sample_frames)] = concat sample_frames"
    by code_simp
  show ?thesis
    using stream_hello_then_show_upload [OF _ _ cut, of sample_parse with_confirm] trim_payloads cut
    by (auto simp: sample_parse_def)
qed

end
